theory Spec2Isabelle
  imports Complex_Main "HOL-Library.AList" "HOL-Library.List_Lexorder" "HOL-Library.Char_ord"
begin

section \<open>Reward model (queue.ts)\<close>

text \<open>
  JavaScript numbers are modelled as mathematical reals: every table entry, win rate and
  time budget of the program is a finite number, and the development reasons about the
  exact arithmetic the formulas denote, not about IEEE rounding.
\<close>

datatype QueueType =
    STANDARD_BO1 | STANDARD_BO3 | HISTORIC_BO1 | HISTORIC_BO3 | QUICK_DRAFT
  | PREMIER_DRAFT | TRADITIONAL_DRAFT | MIDWEEK_MAGIC | ALCHEMY_BO1 | EXPLORER_BO1

datatype QuestType = WIN | CAST | PLAY_COLORS

record QuestMultiplier =
  win :: real
  cast :: real
  play_colors :: real

record QueueRewards =
  entryFee :: real
  winRewards :: "real list"
  gemRewards :: "real list option"
  packRewards :: "real list option"
  averageGameLength :: real
  questMultiplier :: QuestMultiplier

text \<open>The enum's string values, as declared in \<open>enum QueueType\<close>.\<close>

fun queueId :: "QueueType \<Rightarrow> string" where
  "queueId STANDARD_BO1 = ''standard_bo1''"
| "queueId STANDARD_BO3 = ''standard_bo3''"
| "queueId HISTORIC_BO1 = ''historic_bo1''"
| "queueId HISTORIC_BO3 = ''historic_bo3''"
| "queueId QUICK_DRAFT = ''quick_draft''"
| "queueId PREMIER_DRAFT = ''premier_draft''"
| "queueId TRADITIONAL_DRAFT = ''traditional_draft''"
| "queueId MIDWEEK_MAGIC = ''midweek_magic''"
| "queueId ALCHEMY_BO1 = ''alchemy_bo1''"
| "queueId EXPLORER_BO1 = ''explorer_bo1''"

definition bo1Gold :: "real list" where
  "bo1Gold = [0, 25, 50, 100, 150, 200, 250]"

definition draftPacks :: "real list" where
  "draftPacks = [1, 1, 2, 2, 3, 4, 5, 6]"

text \<open>\<open>QUEUE_REWARDS\<close>: a \<open>Record<QueueType, QueueRewards>\<close>, total on the enum.\<close>

fun QUEUE_REWARDS :: "QueueType \<Rightarrow> QueueRewards" where
  "QUEUE_REWARDS STANDARD_BO1 =
     \<lparr>entryFee = 0, winRewards = bo1Gold, gemRewards = None, packRewards = None,
      averageGameLength = 8,
      questMultiplier = \<lparr>win = 1, cast = 1, play_colors = 1\<rparr>\<rparr>"
| "QUEUE_REWARDS STANDARD_BO3 =
     \<lparr>entryFee = 0, winRewards = [0, 100, 200, 300], gemRewards = None, packRewards = None,
      averageGameLength = 20,
      questMultiplier = \<lparr>win = 2, cast = 5 / 2, play_colors = 5 / 2\<rparr>\<rparr>"
| "QUEUE_REWARDS HISTORIC_BO1 =
     \<lparr>entryFee = 0, winRewards = bo1Gold, gemRewards = None, packRewards = None,
      averageGameLength = 7,
      questMultiplier = \<lparr>win = 1, cast = 1, play_colors = 1\<rparr>\<rparr>"
| "QUEUE_REWARDS HISTORIC_BO3 =
     \<lparr>entryFee = 0, winRewards = [0, 100, 200, 300], gemRewards = None, packRewards = None,
      averageGameLength = 18,
      questMultiplier = \<lparr>win = 2, cast = 5 / 2, play_colors = 5 / 2\<rparr>\<rparr>"
| "QUEUE_REWARDS QUICK_DRAFT =
     \<lparr>entryFee = 5000, winRewards = [50, 100, 200, 300, 450, 650, 950, 1200],
      gemRewards = Some [0, 50, 100, 200, 300, 450, 650, 950],
      packRewards = Some draftPacks,
      averageGameLength = 12,
      questMultiplier = \<lparr>win = 1, cast = 4 / 5, play_colors = 6 / 5\<rparr>\<rparr>"
| "QUEUE_REWARDS PREMIER_DRAFT =
     \<lparr>entryFee = 10000, winRewards = [0, 1000, 1500, 1700, 1900, 2100, 2200, 2500],
      gemRewards = Some [50, 250, 400, 600, 800, 1000, 1200, 1600],
      packRewards = Some draftPacks,
      averageGameLength = 15,
      questMultiplier = \<lparr>win = 1, cast = 4 / 5, play_colors = 6 / 5\<rparr>\<rparr>"
| "QUEUE_REWARDS TRADITIONAL_DRAFT =
     \<lparr>entryFee = 10000, winRewards = [0, 3000, 6000],
      gemRewards = Some [0, 1000, 3000],
      packRewards = Some [1, 4, 6],
      averageGameLength = 35,
      questMultiplier = \<lparr>win = 2, cast = 5 / 2, play_colors = 5 / 2\<rparr>\<rparr>"
| "QUEUE_REWARDS MIDWEEK_MAGIC =
     \<lparr>entryFee = 0, winRewards = [0, 250, 400, 500], gemRewards = None, packRewards = None,
      averageGameLength = 10,
      questMultiplier = \<lparr>win = 1, cast = 3 / 2, play_colors = 3 / 2\<rparr>\<rparr>"
| "QUEUE_REWARDS ALCHEMY_BO1 =
     \<lparr>entryFee = 0, winRewards = bo1Gold, gemRewards = None, packRewards = None,
      averageGameLength = 9,
      questMultiplier = \<lparr>win = 1, cast = 6 / 5, play_colors = 1\<rparr>\<rparr>"
| "QUEUE_REWARDS EXPLORER_BO1 =
     \<lparr>entryFee = 0, winRewards = bo1Gold, gemRewards = None, packRewards = None,
      averageGameLength = 8,
      questMultiplier = \<lparr>win = 1, cast = 1, play_colors = 1\<rparr>\<rparr>"

definition getQueueRewards :: "QueueType \<Rightarrow> QueueRewards option" where
  "getQueueRewards queueType = Some (QUEUE_REWARDS queueType)"

text \<open>
  \<open>QUEUE_REWARDS[queueType] || QUEUE_REWARDS[STANDARD_BO1]\<close>: the table has an entry
  for every member of the enum, so the left operand is always taken.
\<close>

definition getQueueRewardsWithFallback :: "QueueType \<Rightarrow> QueueRewards" where
  "getQueueRewardsWithFallback queueType =
     (case getQueueRewards queueType of
        Some r \<Rightarrow> r
      | None \<Rightarrow> QUEUE_REWARDS STANDARD_BO1)"

text \<open>\<open>Object.values(QueueType)\<close>: the members in declaration order.\<close>

definition getAllQueueTypes :: "QueueType list" where
  "getAllQueueTypes =
     [STANDARD_BO1, STANDARD_BO3, HISTORIC_BO1, HISTORIC_BO3, QUICK_DRAFT,
      PREMIER_DRAFT, TRADITIONAL_DRAFT, MIDWEEK_MAGIC, ALCHEMY_BO1, EXPLORER_BO1]"

text \<open>
  The body shared by \<open>calculateExpectedGoldReward\<close>, \<open>calculateExpectedGemReward\<close> and
  \<open>calculateExpectedPackReward\<close> once the array has been fetched: a \<open>for\<close> loop over
  \<open>wins = 0 .. length - 2\<close>, then the term for the maximum index.
\<close>

definition expectedFromArray :: "real list \<Rightarrow> real \<Rightarrow> real" where
  "expectedFromArray arr winRate =
     (if length arr = 0 then 0
      else
        let expectedReward =
              fold (\<lambda>wins acc.
                      acc + (if wins = 0 then 1 - winRate
                             else winRate ^ wins * (1 - winRate)) * arr ! wins)
                   [0 ..< length arr - 1] 0
        in if length arr > 1
           then expectedReward + winRate ^ (length arr - 1) * arr ! (length arr - 1)
           else expectedReward)"

definition calculateExpectedGoldReward :: "QueueType \<Rightarrow> real \<Rightarrow> real" where
  "calculateExpectedGoldReward queueType winRate =
     expectedFromArray (winRewards (getQueueRewardsWithFallback queueType)) winRate"

definition calculateExpectedGemReward :: "QueueType \<Rightarrow> real \<Rightarrow> real" where
  "calculateExpectedGemReward queueType winRate =
     (case gemRewards (getQueueRewardsWithFallback queueType) of
        None \<Rightarrow> 0
      | Some arr \<Rightarrow> expectedFromArray arr winRate)"

definition calculateExpectedPackReward :: "QueueType \<Rightarrow> real \<Rightarrow> real" where
  "calculateExpectedPackReward queueType winRate =
     (case packRewards (getQueueRewardsWithFallback queueType) of
        None \<Rightarrow> 0
      | Some arr \<Rightarrow> expectedFromArray arr winRate)"

section \<open>EV calculator (ev-calculator.ts)\<close>

record EVResult =
  expectedValue :: real
  expectedGold :: real
  expectedGems :: real
  expectedPacks :: real
  entryCost :: real
  netValue :: real
  evPerMinute :: real

definition calculateExpectedReward :: "real list \<Rightarrow> real \<Rightarrow> real" where
  "calculateExpectedReward rewards winRate =
     (if length rewards = 0 then 0
      else if winRate = 0 then rewards ! 0
      else if winRate = 1 then rewards ! (length rewards - 1)
      else fold (\<lambda>wins expectedReward.
                   let probability =
                         (if wins = 0 then 1 - winRate
                          else if wins = length rewards - 1 then winRate ^ wins
                          else winRate ^ wins * (1 - winRate))
                   in expectedReward + probability * rewards ! wins)
                [0 ..< length rewards] 0)"

definition calculateQueueEV :: "QueueType \<Rightarrow> real \<Rightarrow> EVResult" where
  "calculateQueueEV queueType winRate =
     (let rewards = getQueueRewardsWithFallback queueType;
          expectedGold = calculateExpectedReward (winRewards rewards) winRate;
          expectedGems = (case gemRewards rewards of
                            Some g \<Rightarrow> calculateExpectedReward g winRate | None \<Rightarrow> 0);
          expectedPacks = (case packRewards rewards of
                             Some p \<Rightarrow> calculateExpectedReward p winRate | None \<Rightarrow> 0);
          goldEquivalent = expectedGold + expectedGems * 5 + expectedPacks * 1000;
          netValue = goldEquivalent - entryFee rewards;
          evPerMinute = netValue / averageGameLength rewards
      in \<lparr>expectedValue = goldEquivalent, expectedGold = expectedGold,
          expectedGems = expectedGems, expectedPacks = expectedPacks,
          entryCost = entryFee rewards, netValue = netValue,
          evPerMinute = evPerMinute\<rparr>)"

text \<open>
  The win-streak expectation in the words of the specification, for a reward array
  \<open>R[0..n]\<close>: stopping at \<open>wins < n\<close> has probability \<open>1 - winRate\<close> for \<open>wins = 0\<close>
  and \<open>winRate ^ wins * (1 - winRate)\<close> otherwise; reaching \<open>n\<close> has probability
  \<open>winRate ^ n\<close>.
\<close>

definition stopProbability :: "real \<Rightarrow> nat \<Rightarrow> real" where
  "stopProbability winRate wins =
     (if wins = 0 then 1 - winRate else winRate ^ wins * (1 - winRate))"

definition winStreakExpectation :: "real list \<Rightarrow> real \<Rightarrow> real" where
  "winStreakExpectation R winRate =
     (let n = length R - 1
      in (\<Sum>wins<n. R ! wins * stopProbability winRate wins) + winRate ^ n * R ! n)"

text \<open>
  Numbers that may be infinite: \<open>calculateQuestProgressRate\<close> returns \<open>Infinity\<close>
  for a quest that makes no progress, and \<open>findBestQueueOption\<close> starts its running
  maximum at \<open>-Infinity\<close>.
\<close>

datatype jsnum = NegInfinity | Finite real | Infinity

fun js_le :: "jsnum \<Rightarrow> jsnum \<Rightarrow> bool" where
  "js_le NegInfinity _ = True"
| "js_le (Finite a) NegInfinity = False"
| "js_le (Finite a) (Finite b) = (a \<le> b)"
| "js_le (Finite a) Infinity = True"
| "js_le Infinity Infinity = True"
| "js_le Infinity _ = False"

definition js_gt :: "jsnum \<Rightarrow> jsnum \<Rightarrow> bool" where
  "js_gt a b = (\<not> js_le a b)"

text \<open>\<open>Math.ceil\<close> and \<open>Math.round\<close> (halves round towards \<open>+Infinity\<close>).\<close>

definition Math_ceil :: "real \<Rightarrow> real" where
  "Math_ceil x = of_int \<lceil>x\<rceil>"

definition Math_round :: "real \<Rightarrow> real" where
  "Math_round x = of_int \<lfloor>x + 1 / 2\<rfloor>"

record Quest =
  quest_id :: string
  quest_type :: QuestType
  description :: string
  remaining :: real
  expiresInDays :: real
  colors :: "string list option"
  quest_createdAt :: int
  quest_updatedAt :: int

record QuestProgressResult =
  progressPerGame :: real
  estimatedGamesToComplete :: jsnum
  estimatedMinutesToComplete :: jsnum

text \<open>\<open>rewards.questMultiplier[quest.type]\<close>\<close>

fun multiplierFor :: "QuestMultiplier \<Rightarrow> QuestType \<Rightarrow> real" where
  "multiplierFor m WIN = win m"
| "multiplierFor m CAST = cast m"
| "multiplierFor m PLAY_COLORS = play_colors m"

text \<open>
  \<open>calculateQuestProgressRate\<close>. The \<open>default\<close> branch of the \<open>switch\<close> is not
  reachable for a quest type of the enum.
\<close>

definition calculateQuestProgressRate :: "Quest \<Rightarrow> QueueType \<Rightarrow> real \<Rightarrow> QuestProgressResult" where
  "calculateQuestProgressRate quest queueType winRate =
     (let rewards = getQueueRewardsWithFallback queueType;
          multiplier = multiplierFor (questMultiplier rewards) (quest_type quest);
          baseProgressPerGame =
            (case quest_type quest of
               WIN \<Rightarrow> winRate * multiplier
             | CAST \<Rightarrow> 10 * multiplier
             | PLAY_COLORS \<Rightarrow> 1 * multiplier);
          progressPerGame = min baseProgressPerGame (remaining quest);
          estimatedGamesToComplete =
            (if remaining quest = 0 then Finite 0
             else if progressPerGame > 0
                  then Finite (Math_ceil (remaining quest / progressPerGame))
                  else Infinity);
          estimatedMinutesToComplete =
            (if remaining quest = 0 then Finite 0
             else case estimatedGamesToComplete of
                    Finite g \<Rightarrow> Finite (g * averageGameLength rewards)
                  | other \<Rightarrow> other)
      in \<lparr>progressPerGame = progressPerGame,
          estimatedGamesToComplete = estimatedGamesToComplete,
          estimatedMinutesToComplete = estimatedMinutesToComplete\<rparr>)"

record QuestCompletion =
  canComplete :: bool
  qc_estimatedMinutes :: jsnum
  qc_estimatedGames :: jsnum
  qc_progressPerGame :: real
  timeRemaining :: jsnum

definition estimateQuestCompletion ::
  "Quest \<Rightarrow> QueueType \<Rightarrow> real \<Rightarrow> real \<Rightarrow> QuestCompletion" where
  "estimateQuestCompletion quest queueType winRate timeBudgetMinutes =
     (let progressResult = calculateQuestProgressRate quest queueType winRate
      in \<lparr>canComplete =
            js_le (estimatedMinutesToComplete progressResult) (Finite timeBudgetMinutes),
          qc_estimatedMinutes = estimatedMinutesToComplete progressResult,
          qc_estimatedGames = estimatedGamesToComplete progressResult,
          qc_progressPerGame = progressPerGame progressResult,
          timeRemaining =
            (case estimatedMinutesToComplete progressResult of
               Finite m \<Rightarrow> Finite (max 0 (timeBudgetMinutes - m))
             | Infinity \<Rightarrow> Finite 0
             | NegInfinity \<Rightarrow> Infinity)\<rparr>)"

section \<open>Plans (queue.ts, plan.ts)\<close>

record QuestProgress =
  questId :: string
  progressAmount :: real

record Rewards =
  gold :: real
  gems :: real
  packs :: real

record PlanStep =
  step_id :: string
  queue :: QueueType
  targetGames :: real
  estimatedMinutes :: real
  expectedRewards :: Rewards
  step_questProgress :: "QuestProgress list"
  completed :: bool

record OptimizedPlan =
  plan_id :: string
  steps :: "PlanStep list"
  totalEstimatedMinutes :: real
  totalExpectedRewards :: Rewards
  questsCompleted :: "string list"
  plan_timeBudget :: real
  plan_winRate :: real
  createdAt :: int
  updatedAt :: int

section \<open>Plan optimizer (plan-optimizer.ts)\<close>

record UserSettings =
  defaultWinRate :: real
  preferredQueues :: "QueueType list"
  minutesPerGame :: real

record EVWithBonus = EVResult +
  questCompletionBonus :: real

record OptionProgress =
  op_questId :: string
  op_progressAmount :: real
  op_estimatedGamesToComplete :: jsnum

record QueueOption =
  opt_queueType :: QueueType
  ev :: EVWithBonus
  opt_questProgress :: "OptionProgress list"
  opt_estimatedMinutes :: real
  canCompleteInBudget :: bool
  priority :: real

text \<open>
  The messages of the result. Each constructor stands for one literal of the source;
  the templated warnings carry the number the template prints.
  \<^item> \<open>NoActiveQuests\<close>: \<open>'No active quests to optimize'\<close>
  \<^item> \<open>InsufficientTime\<close>: \<open>'Insufficient time to complete any quests'\<close>
  \<^item> \<open>AllQuestsCompleted\<close>: \<open>'All quests are already completed'\<close>
  \<^item> \<open>ConsiderIncreasing\<close>: \<open>'Consider increasing time budget or adjusting win rate'\<close>
  \<^item> \<open>CannotComplete n\<close>: \<open>'n quest(s) cannot be completed within time budget'\<close>
  \<^item> \<open>ExpireSoon n\<close>: \<open>'n quest(s) expire within 24 hours'\<close>
  \<^item> \<open>UnusedTime t\<close>: \<open>'t minutes of unused time - consider adding more quests ...'\<close>
  \<^item> \<open>AllTimeUsed\<close>: \<open>'All allocated time has been used'\<close>
  \<^item> \<open>InsufficientRemaining\<close>:
    \<open>'Insufficient remaining time for additional optimization'\<close>
\<close>

datatype Issue =
    QuestIdNotUuid nat | QuestRemainingBelowMin nat | QuestExpiresBelowMin nat
  | TimeBudgetBelowMin | TimeBudgetAboveMax | WinRateBelowMin | WinRateAboveMax
  | DefaultWinRateBelowMin | DefaultWinRateAboveMax
  | MinutesPerGameBelowMin | MinutesPerGameAboveMax

datatype OptError = ValidationFailed "Issue list" | NoActiveQuests | InsufficientTime

datatype Warning =
    AllQuestsCompleted | ConsiderIncreasing | CannotComplete nat | ExpireSoon nat
  | UnusedTime real | AllTimeUsed | InsufficientRemaining

record OptimizationResult =
  success :: bool
  plan :: "OptimizedPlan option"
  error :: "OptError option"
  warnings :: "Warning list option"

text \<open>
  What a call reads from outside its arguments: the \<open>k\<close>-th identifier that \<open>uuidv4()\<close>
  returns during the call and the \<open>k\<close>-th value of \<open>new Date()\<close> (milliseconds).
\<close>

record World =
  uuidv4 :: "nat \<Rightarrow> string"
  newDate :: "nat \<Rightarrow> int"

text \<open>
  \<open>OptimizationInputSchema.parse\<close>. The schema library is not part of the repository:
  its test of \<open>z.string().uuid()\<close> is the parameter \<open>isUuid\<close>. Enum membership, string
  and date fields are fixed by the types of the model. Issues come in the order of the
  schema's keys.
\<close>

definition questIssues :: "(string \<Rightarrow> bool) \<Rightarrow> nat \<Rightarrow> Quest \<Rightarrow> Issue list" where
  "questIssues isUuid i quest =
     (if isUuid (quest_id quest) then [] else [QuestIdNotUuid i])
     @ (if remaining quest < 0 then [QuestRemainingBelowMin i] else [])
     @ (if expiresInDays quest < 0 then [QuestExpiresBelowMin i] else [])"

definition settingsIssues :: "UserSettings \<Rightarrow> Issue list" where
  "settingsIssues s =
     (if defaultWinRate s < 3 / 10 then [DefaultWinRateBelowMin] else [])
     @ (if defaultWinRate s > 8 / 10 then [DefaultWinRateAboveMax] else [])
     @ (if minutesPerGame s < 1 then [MinutesPerGameBelowMin] else [])
     @ (if minutesPerGame s > 60 then [MinutesPerGameAboveMax] else [])"

definition validateOptimizationInput ::
  "(string \<Rightarrow> bool) \<Rightarrow> Quest list \<Rightarrow> real \<Rightarrow> real \<Rightarrow> UserSettings option \<Rightarrow> Issue list" where
  "validateOptimizationInput isUuid quests timeBudget winRate settings =
     concat (map (\<lambda>(i, q). questIssues isUuid i q) (zip [0 ..< length quests] quests))
     @ (if timeBudget < 15 then [TimeBudgetBelowMin] else [])
     @ (if timeBudget > 180 then [TimeBudgetAboveMax] else [])
     @ (if winRate < 3 / 10 then [WinRateBelowMin] else [])
     @ (if winRate > 8 / 10 then [WinRateAboveMax] else [])
     @ (case settings of None \<Rightarrow> [] | Some s \<Rightarrow> settingsIssues s)"

definition createDefaultSettings :: UserSettings where
  "createDefaultSettings =
     \<lparr>defaultWinRate = 1 / 2,
      preferredQueues = [STANDARD_BO1, HISTORIC_BO1, QUICK_DRAFT],
      minutesPerGame = 8\<rparr>"

text \<open>
  The \<open>Map<string, number>\<close> of tracked progress is an association list in insertion
  order (\<open>AList.update\<close> overwrites in place or appends, as \<open>Map.set\<close> does); the
  \<open>Set<string>\<close> of completed quests is a list without repetitions in insertion order.
  \<open>questProgress.get(id) || 0\<close> reads a missing key as 0.
\<close>

definition getOrZero :: "(string \<times> real) list \<Rightarrow> string \<Rightarrow> real" where
  "getOrZero m k = (case map_of m k of Some v \<Rightarrow> v | None \<Rightarrow> 0)"

definition setAdd :: "string \<Rightarrow> string list \<Rightarrow> string list" where
  "setAdd x xs = (if x \<in> set xs then xs else xs @ [x])"

text \<open>One pass of the \<open>for (const quest of quests)\<close> loop of \<open>evaluateQueueOption\<close>.\<close>

definition evaluateQuest ::
  "QueueType \<Rightarrow> (string \<times> real) list \<Rightarrow> string list \<Rightarrow> real \<Rightarrow> Quest
   \<Rightarrow> OptionProgress list \<times> real \<times> real \<Rightarrow> OptionProgress list \<times> real \<times> real" where
  "evaluateQuest queueType questProgress completedQuests winRate quest acc =
     (case acc of (questProgressData, totalQuestBonus, urgencyMultiplier) \<Rightarrow>
        if quest_id quest \<in> set completedQuests then acc
        else
          let remaining = getOrZero questProgress (quest_id quest)
          in if remaining \<le> 0 then acc
             else
               let progressResult = calculateQuestProgressRate quest queueType winRate
               in if progressPerGame progressResult > 0
                  then
                    let progressAmount = min (progressPerGame progressResult) remaining;
                        questCompletionValue = 500;
                        progressRatio = progressAmount / remaining
                    in (questProgressData
                          @ [\<lparr>op_questId = quest_id quest,
                               op_progressAmount = progressAmount,
                               op_estimatedGamesToComplete =
                                 estimatedGamesToComplete progressResult\<rparr>],
                        totalQuestBonus + questCompletionValue * progressRatio,
                        if expiresInDays quest \<le> 1 then max urgencyMultiplier 2
                        else if expiresInDays quest \<le> 2 then max urgencyMultiplier (3 / 2)
                        else urgencyMultiplier)
                  else acc)"

definition evaluateQueueOption ::
  "QueueType \<Rightarrow> Quest list \<Rightarrow> (string \<times> real) list \<Rightarrow> string list \<Rightarrow> real \<Rightarrow> real
   \<Rightarrow> QueueOption option" where
  "evaluateQueueOption queueType quests questProgress completedQuests remainingTime winRate =
     (let rewards = getQueueRewardsWithFallback queueType;
          (questProgressData, totalQuestBonus, urgencyMultiplier) =
            fold (evaluateQuest queueType questProgress completedQuests winRate)
                 quests ([], 0, 1);
          queueEV = calculateQueueEV queueType winRate;
          estimatedGames =
            max 1 (min 3 (Math_ceil (remainingTime / averageGameLength rewards / 2)));
          estimatedMinutes = estimatedGames * averageGameLength rewards
      in if estimatedMinutes > remainingTime then None
         else
           let totalEV = netValue queueEV * estimatedGames + totalQuestBonus;
               evPerMinute = totalEV / estimatedMinutes;
               priority = evPerMinute * urgencyMultiplier
           in Some \<lparr>opt_queueType = queueType,
                     ev = EVResult.extend queueEV
                            \<lparr>questCompletionBonus = totalQuestBonus / estimatedGames\<rparr>,
                     opt_questProgress = questProgressData,
                     opt_estimatedMinutes = estimatedMinutes,
                     canCompleteInBudget = (estimatedMinutes \<le> remainingTime),
                     priority = priority\<rparr>)"

definition availableQueues :: "UserSettings \<Rightarrow> QueueType list" where
  "availableQueues settings =
     (if length (preferredQueues settings) > 0 then preferredQueues settings
      else getAllQueueTypes)"

text \<open>One pass of the \<open>for (const queueType of availableQueues)\<close> loop.\<close>

definition considerQueue ::
  "Quest list \<Rightarrow> (string \<times> real) list \<Rightarrow> string list \<Rightarrow> real \<Rightarrow> real \<Rightarrow> QueueType
   \<Rightarrow> QueueOption option \<times> jsnum \<Rightarrow> QueueOption option \<times> jsnum" where
  "considerQueue quests questProgress completedQuests remainingTime winRate queueType best =
     (case evaluateQueueOption queueType quests questProgress completedQuests
             remainingTime winRate of
        None \<Rightarrow> best
      | Some option \<Rightarrow>
          if canCompleteInBudget option \<and> js_gt (Finite (priority option)) (snd best)
          then (Some option, Finite (priority option))
          else best)"

definition findBestQueueOption ::
  "Quest list \<Rightarrow> (string \<times> real) list \<Rightarrow> string list \<Rightarrow> real \<Rightarrow> real \<Rightarrow> UserSettings
   \<Rightarrow> QueueOption option" where
  "findBestQueueOption quests questProgress completedQuests remainingTime winRate settings =
     fst (fold (considerQueue quests questProgress completedQuests remainingTime winRate)
               (availableQueues settings) (None, NegInfinity))"

definition createPlanStep ::
  "string \<Rightarrow> QueueOption \<Rightarrow> (string \<times> real) list \<Rightarrow> string list \<Rightarrow> PlanStep" where
  "createPlanStep uuid option questProgress completedQuests =
     (let rewards = getQueueRewardsWithFallback (opt_queueType option);
          estimatedGames = Math_ceil (opt_estimatedMinutes option / averageGameLength rewards);
          expectedRewards =
            \<lparr>gold = Math_round (expectedGold (ev option) * estimatedGames),
             gems = Math_round (expectedGems (ev option) * estimatedGames),
             packs = Math_round (expectedPacks (ev option) * estimatedGames)\<rparr>
      in \<lparr>step_id = uuid,
          queue = opt_queueType option,
          targetGames = estimatedGames,
          estimatedMinutes = opt_estimatedMinutes option,
          expectedRewards = expectedRewards,
          step_questProgress =
            map (\<lambda>progress.
                   \<lparr>questId = op_questId progress,
                    progressAmount =
                      min (op_progressAmount progress * estimatedGames)
                          (getOrZero questProgress (op_questId progress))\<rparr>)
                (opt_questProgress option),
          completed = False\<rparr>)"

text \<open>The body of \<open>bestOption.questProgress.forEach\<close> in the greedy loop.\<close>

definition applyProgress ::
  "OptionProgress \<Rightarrow> (string \<times> real) list \<times> string list
   \<Rightarrow> (string \<times> real) list \<times> string list" where
  "applyProgress progress st =
     (case st of (questProgress, completedQuests) \<Rightarrow>
        let currentProgress = getOrZero questProgress (op_questId progress);
            newProgress = max 0 (currentProgress - op_progressAmount progress)
        in (AList.update (op_questId progress) newProgress questProgress,
            if newProgress = 0 then setAdd (op_questId progress) completedQuests
            else completedQuests))"

record LoopState =
  ls_steps :: "PlanStep list"
  ls_remainingTime :: real
  ls_questProgress :: "(string \<times> real) list"
  ls_completedQuests :: "string list"

section \<open>The greedy loop (plan-optimizer.ts)\<close>

text \<open>One iteration of the \<open>while\<close> loop of \<open>generateOptimizedPlan\<close> after the best option
  has been accepted: emit the step, deduct its minutes, update the tracked progress.\<close>

definition advance :: "World \<Rightarrow> LoopState \<Rightarrow> QueueOption \<Rightarrow> LoopState" where
  "advance w st bestOption =
     (let step = createPlanStep (uuidv4 w (length (ls_steps st))) bestOption
                   (ls_questProgress st) (ls_completedQuests st);
          updated = fold applyProgress (opt_questProgress bestOption)
                      (ls_questProgress st, ls_completedQuests st)
      in \<lparr>ls_steps = ls_steps st @ [step],
          ls_remainingTime = ls_remainingTime st - opt_estimatedMinutes bestOption,
          ls_questProgress = fst updated,
          ls_completedQuests = snd updated\<rparr>)"

function greedyLoop :: "World \<Rightarrow> Quest list \<Rightarrow> real \<Rightarrow> UserSettings \<Rightarrow> LoopState \<Rightarrow> LoopState" where
  "greedyLoop w quests winRate settings st =
     (if ls_remainingTime st > 0
         \<and> length (ls_questProgress st) > length (ls_completedQuests st)
      then
        case findBestQueueOption quests (ls_questProgress st) (ls_completedQuests st)
               (ls_remainingTime st) winRate settings of
          None \<Rightarrow> st
        | Some bestOption \<Rightarrow>
            if opt_estimatedMinutes bestOption > ls_remainingTime st then st
            else greedyLoop w quests winRate settings (advance w st bestOption)
      else st)"
  by pat_completeness auto

text \<open>
  \<open>generateOptimizedPlan\<close>: the steps take the identifiers \<open>uuidv4 w 0, 1, ...\<close> in
  the order they are created, the plan takes the next one, and \<open>createdAt\<close> and
  \<open>updatedAt\<close> are two successive readings of the clock.
\<close>

definition initProgress :: "Quest list \<Rightarrow> (string \<times> real) list" where
  "initProgress quests = fold (\<lambda>quest m. AList.update (quest_id quest) (remaining quest) m) quests []"

definition sumMinutes :: "PlanStep list \<Rightarrow> real" where
  "sumMinutes xs = fold (\<lambda>step sum. sum + estimatedMinutes step) xs 0"

definition sumRewards :: "PlanStep list \<Rightarrow> Rewards" where
  "sumRewards xs =
     fold (\<lambda>step sum.
             \<lparr>gold = gold sum + gold (expectedRewards step),
              gems = gems sum + gems (expectedRewards step),
              packs = packs sum + packs (expectedRewards step)\<rparr>)
          xs \<lparr>gold = 0, gems = 0, packs = 0\<rparr>"

definition generateOptimizedPlan ::
  "World \<Rightarrow> Quest list \<Rightarrow> real \<Rightarrow> real \<Rightarrow> UserSettings \<Rightarrow> OptimizedPlan" where
  "generateOptimizedPlan w quests timeBudget winRate settings =
     (let final = greedyLoop w quests winRate settings
                    \<lparr>ls_steps = [], ls_remainingTime = timeBudget,
                     ls_questProgress = initProgress quests, ls_completedQuests = []\<rparr>
      in \<lparr>plan_id = uuidv4 w (length (ls_steps final)),
          steps = ls_steps final,
          totalEstimatedMinutes = sumMinutes (ls_steps final),
          totalExpectedRewards = sumRewards (ls_steps final),
          questsCompleted = ls_completedQuests final,
          plan_timeBudget = timeBudget,
          plan_winRate = winRate,
          createdAt = newDate w 0,
          updatedAt = newDate w 1\<rparr>)"

definition canQuestBeCompletedInTime ::
  "Quest \<Rightarrow> real \<Rightarrow> real \<Rightarrow> QueueType list \<Rightarrow> bool" where
  "canQuestBeCompletedInTime quest timeBudget winRate preferred =
     (let queuesToCheck = (if length preferred > 0 then preferred else getAllQueueTypes)
      in list_ex (\<lambda>queueType.
                    canComplete (estimateQuestCompletion quest queueType winRate timeBudget))
                 queuesToCheck)"

definition generateWarnings :: "Quest list \<Rightarrow> Quest list \<Rightarrow> OptimizedPlan \<Rightarrow> Warning list" where
  "generateWarnings allQuests feasibleQuests p =
     (let infeasibleQuests =
            filter (\<lambda>quest. \<not> list_ex (\<lambda>fq. quest_id fq = quest_id quest) feasibleQuests
                             \<and> remaining quest > 0) allQuests;
          expiringQuests =
            filter (\<lambda>quest. expiresInDays quest \<le> 1 \<and> remaining quest > 0) allQuests;
          unusedTime = plan_timeBudget p - totalEstimatedMinutes p
      in (if length infeasibleQuests > 0 then [CannotComplete (length infeasibleQuests)] else [])
         @ (if length expiringQuests > 0 then [ExpireSoon (length expiringQuests)] else [])
         @ (if unusedTime > 15 then [UnusedTime unusedTime] else []))"

text \<open>
  \<open>optimizePlan\<close>: the body of the \<open>try\<close> block. No operation of the model throws,
  so the \<open>catch\<close> branch (a failure carrying the exception's message) has no
  counterpart. A failed validation returns no \<open>warnings\<close> field.
\<close>

definition optimizePlan ::
  "(string \<Rightarrow> bool) \<Rightarrow> World \<Rightarrow> Quest list \<Rightarrow> real \<Rightarrow> real \<Rightarrow> UserSettings option
   \<Rightarrow> OptimizationResult" where
  "optimizePlan isUuid w quests timeBudget winRate settings =
     (let issues = validateOptimizationInput isUuid quests timeBudget winRate settings
      in if issues \<noteq> []
         then \<lparr>success = False, plan = None, error = Some (ValidationFailed issues),
               warnings = None\<rparr>
         else
           let userSettings = (case settings of Some s \<Rightarrow> s | None \<Rightarrow> createDefaultSettings);
               activeQuests = filter (\<lambda>quest. remaining quest > 0) quests
           in if length activeQuests = 0
              then \<lparr>success = False, plan = None, error = Some NoActiveQuests,
                    warnings = Some [AllQuestsCompleted]\<rparr>
              else
                let feasibleQuests =
                      filter (\<lambda>quest. canQuestBeCompletedInTime quest timeBudget winRate
                                         (preferredQueues userSettings))
                             activeQuests
                in if length feasibleQuests = 0
                   then \<lparr>success = False, plan = None, error = Some InsufficientTime,
                         warnings = Some [ConsiderIncreasing]\<rparr>
                   else
                     let p = generateOptimizedPlan w feasibleQuests timeBudget winRate
                               userSettings
                     in \<lparr>success = True, plan = Some p, error = None,
                         warnings = Some (generateWarnings activeQuests feasibleQuests p)\<rparr>)"

section \<open>Plan mutator and recalculation (plan-optimizer.ts)\<close>

definition updatePlanProgress :: "World \<Rightarrow> OptimizedPlan \<Rightarrow> string \<Rightarrow> bool \<Rightarrow> OptimizedPlan" where
  "updatePlanProgress w p stepId completedFlag =
     p\<lparr>steps := map (\<lambda>step. if step_id step = stepId
                             then step\<lparr>completed := completedFlag\<rparr> else step)
                     (steps p),
       updatedAt := newDate w 0\<rparr>"

definition recalculatePlan ::
  "(string \<Rightarrow> bool) \<Rightarrow> World \<Rightarrow> OptimizedPlan \<Rightarrow> Quest list \<Rightarrow> UserSettings option
   \<Rightarrow> OptimizationResult" where
  "recalculatePlan isUuid w originalPlan updatedQuests settings =
     (let completedTime = sumMinutes (filter completed (steps originalPlan));
          remainingTime = plan_timeBudget originalPlan - completedTime
      in if remainingTime \<le> 0
         then \<lparr>success = True, plan = Some (originalPlan\<lparr>updatedAt := newDate w 0\<rparr>),
               error = None, warnings = Some [AllTimeUsed]\<rparr>
         else if remainingTime < 15
         then \<lparr>success = True, plan = Some (originalPlan\<lparr>updatedAt := newDate w 0\<rparr>),
               error = None, warnings = Some [InsufficientRemaining]\<rparr>
         else optimizePlan isUuid w updatedQuests remainingTime (plan_winRate originalPlan)
                settings)"

section \<open>The EV calculator in double precision (ev-calculator.ts)\<close>

text \<open>
  JavaScript numbers are IEEE 754 binary64 values. The definitions of
  \<open>calculateExpectedReward\<close> and \<open>calculateQueueEV\<close> above evaluate the expressions of
  the source over the reals; the definitions of this section evaluate the same
  expressions with every operation rounded as the program rounds it.

  \<open>fl x\<close> is the double nearest to the real \<open>x\<close>, a tie going to the even significand
  (\<open>rne\<close>). The doubles around \<open>x\<close> are \<open>2 powi ulpExponent x\<close> apart: 53 significant
  bits for normal numbers, the fixed spacing \<open>2 powi -1074\<close> for subnormal ones.
  Overflow to \<open>Infinity\<close> is not modelled: for win rates in \<open>[0,1]\<close> the values the
  calculator computes stay far below the largest double (a reward is at most 6000,
  and a reward array has at most eight entries).
\<close>

definition rne :: "real \<Rightarrow> int" where
  "rne y =
     (let f = \<lfloor>y\<rfloor>; d = y - of_int f
      in if d < 1 / 2 then f
         else if d > 1 / 2 then f + 1
         else if even f then f else f + 1)"

definition ulpExponent :: "real \<Rightarrow> int" where
  "ulpExponent x = max (\<lfloor>log 2 \<bar>x\<bar>\<rfloor> - 52) (- 1074)"

definition fl :: "real \<Rightarrow> real" where
  "fl x = of_int (rne (x / 2 powi ulpExponent x)) * 2 powi ulpExponent x"

text \<open>The four arithmetic operations on doubles return the exact result, rounded.\<close>

definition dadd :: "real \<Rightarrow> real \<Rightarrow> real" where "dadd a b = fl (a + b)"
definition dsub :: "real \<Rightarrow> real \<Rightarrow> real" where "dsub a b = fl (a - b)"
definition dmul :: "real \<Rightarrow> real \<Rightarrow> real" where "dmul a b = fl (a * b)"
definition ddiv :: "real \<Rightarrow> real \<Rightarrow> real" where "ddiv a b = fl (a / b)"

text \<open>
  The language standard leaves the accuracy of \<open>Math.pow\<close> to the implementation, so it
  is a parameter \<open>Math_pow\<close> of the two functions; everything else is the source's
  expression, operation by operation, in the source's order of evaluation.
\<close>

definition calculateExpectedReward_double ::
  "(real \<Rightarrow> nat \<Rightarrow> real) \<Rightarrow> real list \<Rightarrow> real \<Rightarrow> real" where
  "calculateExpectedReward_double Math_pow rewards winRate =
     (if length rewards = 0 then 0
      else if winRate = 0 then rewards ! 0
      else if winRate = 1 then rewards ! (length rewards - 1)
      else fold (\<lambda>wins expectedReward.
                   let probability =
                         (if wins = 0 then dsub 1 winRate
                          else if wins = length rewards - 1 then Math_pow winRate wins
                          else dmul (Math_pow winRate wins) (dsub 1 winRate))
                   in dadd expectedReward (dmul probability (rewards ! wins)))
                [0 ..< length rewards] 0)"

definition calculateQueueEV_double ::
  "(real \<Rightarrow> nat \<Rightarrow> real) \<Rightarrow> QueueType \<Rightarrow> real \<Rightarrow> EVResult" where
  "calculateQueueEV_double Math_pow queueType winRate =
     (let rewards = getQueueRewardsWithFallback queueType;
          expectedGold = calculateExpectedReward_double Math_pow (winRewards rewards) winRate;
          expectedGems = (case gemRewards rewards of
                            Some g \<Rightarrow> calculateExpectedReward_double Math_pow g winRate
                          | None \<Rightarrow> 0);
          expectedPacks = (case packRewards rewards of
                             Some p \<Rightarrow> calculateExpectedReward_double Math_pow p winRate
                           | None \<Rightarrow> 0);
          goldEquivalent =
            dadd (dadd expectedGold (dmul expectedGems 5)) (dmul expectedPacks 1000);
          netValue = dsub goldEquivalent (entryFee rewards);
          evPerMinute = ddiv netValue (averageGameLength rewards)
      in \<lparr>expectedValue = goldEquivalent, expectedGold = expectedGold,
          expectedGems = expectedGems, expectedPacks = expectedPacks,
          entryCost = entryFee rewards, netValue = netValue,
          evPerMinute = evPerMinute\<rparr>)"

text \<open>
  \<open>correctlyRoundedPow\<close> returns the double nearest to the exact power.
  \<open>powAccurate\<close> is what the error analysis needs of \<open>Math.pow\<close>: on bases in \<open>[0,1]\<close>
  and the exponents that occur (at most seven wins) the result is within \<open>2^-50\<close> of
  the exact power, which leaves room for an error of several units in the last place.
\<close>

definition correctlyRoundedPow :: "real \<Rightarrow> nat \<Rightarrow> real" where
  "correctlyRoundedPow w k = fl (w ^ k)"

definition powAccurate :: "(real \<Rightarrow> nat \<Rightarrow> real) \<Rightarrow> bool" where
  "powAccurate Math_pow =
     (\<forall>w k. 0 \<le> w \<and> w \<le> 1 \<and> k \<le> 7 \<longrightarrow> \<bar>Math_pow w k - w ^ k\<bar> \<le> 1 / 2 ^ 50)"

section \<open>Notions and example inputs used in the statements\<close>

subsection \<open>Invariants of the greedy loop\<close>

definition continues :: "LoopState \<Rightarrow> bool" where
  "continues st = (ls_remainingTime st > 0
                   \<and> length (ls_questProgress st) > length (ls_completedQuests st))"

definition bestFor :: "Quest list \<Rightarrow> real \<Rightarrow> UserSettings \<Rightarrow> LoopState \<Rightarrow> QueueOption option" where
  "bestFor quests wr settings st =
     findBestQueueOption quests (ls_questProgress st) (ls_completedQuests st)
       (ls_remainingTime st) wr settings"


subsection \<open>What \<open>findBestQueueOption\<close> selects\<close>

text \<open>
  The state of the \<open>for\<close> loop of \<open>findBestQueueOption\<close> after the queues \<open>qs\<close>: nothing
  yet and every queue so far evaluated to \<open>null\<close>, or the option of the first queue that
  attains the highest priority so far.
\<close>

definition bestSoFar ::
  "(QueueType \<Rightarrow> QueueOption option) \<Rightarrow> QueueType list \<Rightarrow> QueueOption option \<times> jsnum \<Rightarrow> bool" where
  "bestSoFar E qs best =
     (case fst best of
        None \<Rightarrow> snd best = NegInfinity \<and> list_all (\<lambda>q. E q = None) qs
      | Some opt \<Rightarrow>
          snd best = Finite (priority opt)
          \<and> (\<exists>i<length qs. E (qs ! i) = Some opt
                \<and> (\<forall>j<length qs. \<forall>opt'. E (qs ! j) = Some opt'
                      \<longrightarrow> priority opt' \<le> priority opt
                          \<and> (priority opt' = priority opt \<longrightarrow> i \<le> j))))"

subsection \<open>Successful results of \<open>optimizePlan\<close>\<close>

definition userSettingsOf :: "UserSettings option \<Rightarrow> UserSettings" where
  "userSettingsOf settings = (case settings of Some s \<Rightarrow> s | None \<Rightarrow> createDefaultSettings)"

definition feasibleOf :: "Quest list \<Rightarrow> real \<Rightarrow> real \<Rightarrow> UserSettings option \<Rightarrow> Quest list" where
  "feasibleOf quests tb wr settings =
     filter (\<lambda>quest. canQuestBeCompletedInTime quest tb wr
                       (preferredQueues (userSettingsOf settings)))
            (filter (\<lambda>quest. remaining quest > 0) quests)"

subsection \<open>A worked example\<close>

text \<open>
  One quest (cast 10 spells), 15 minutes, win rate 0.5, Standard only: the optimizer
  emits one step of one game. The stand-in for the schema library's UUID test accepts
  the strings of 36 characters.
\<close>

definition isUuid36 :: "string \<Rightarrow> bool" where
  "isUuid36 s = (length s = 36)"

definition castQuest :: Quest where
  "castQuest = \<lparr>quest_id = ''123e4567-e89b-12d3-a456-426614174002'', quest_type = CAST,
     description = ''Cast 10 spells'', remaining = 10,
         expiresInDays = 3, colors = None, quest_createdAt = 0, quest_updatedAt = 0\<rparr>"

definition world0 :: World where
  "world0 = \<lparr>uuidv4 = (\<lambda>k. if k = 0 then ''step-0'' else ''plan-0''), newDate = (\<lambda>k. 1000 + int k)\<rparr>"

definition standardOnly :: UserSettings where
  "standardOnly = \<lparr>defaultWinRate = 1 / 2, preferredQueues = [STANDARD_BO1], minutesPerGame = 8\<rparr>"

definition exampleStep :: PlanStep where
  "exampleStep =
     \<lparr>step_id = ''step-0'', queue = STANDARD_BO1, targetGames = 1, estimatedMinutes = 8,
      expectedRewards = \<lparr>gold = 30, gems = 0, packs = 0\<rparr>,
      step_questProgress = [\<lparr>questId = quest_id castQuest, progressAmount = 10\<rparr>],
      completed = False\<rparr>"

definition examplePlan :: OptimizedPlan where
  "examplePlan =
     \<lparr>plan_id = ''plan-0'', steps = [exampleStep], totalEstimatedMinutes = 8,
      totalExpectedRewards = \<lparr>gold = 30, gems = 0, packs = 0\<rparr>,
      questsCompleted = [quest_id castQuest], plan_timeBudget = 15, plan_winRate = 1 / 2,
      createdAt = 1000, updatedAt = 1001\<rparr>"

subsection \<open>Totals and step count of a returned plan\<close>


subsection \<open>A plan of ten steps\<close>

text \<open>
  Cast 100 spells in 175 minutes, Historic only (games of 7 minutes): seven steps of
  three games, one of two games and two of one game use the budget exactly, and the
  quest is completed by the tenth step.
\<close>

definition longQuest :: Quest where
  "longQuest = castQuest\<lparr>remaining := 100\<rparr>"


subsection \<open>The selection rule\<close>

definition standardAndExplorer :: UserSettings where
  "standardAndExplorer =
     \<lparr>defaultWinRate = 1 / 2, preferredQueues = [STANDARD_BO1, EXPLORER_BO1],
      minutesPerGame = 8\<rparr>"

subsection \<open>Marking steps\<close>

definition world1 :: World where
  "world1 = \<lparr>uuidv4 = (\<lambda>k. if k = 0 then ''step-1'' else ''plan-1''),
              newDate = (\<lambda>k. 2000 + int k)\<rparr>"

subsection \<open>Recalculation\<close>

text \<open>The example plan with its only step marked completed, at time 2000.\<close>

definition exampleDone :: OptimizedPlan where
  "exampleDone = updatePlanProgress world1 examplePlan ''step-0'' True"

definition twoStepsDone :: OptimizedPlan where
  "twoStepsDone =
     \<lparr>plan_id = ''plan-0'',
      steps = [exampleStep\<lparr>completed := True\<rparr>,
               exampleStep\<lparr>step_id := ''step-1'', completed := True\<rparr>],
      totalEstimatedMinutes = 16,
      totalExpectedRewards = \<lparr>gold = 60, gems = 0, packs = 0\<rparr>,
      questsCompleted = [quest_id castQuest], plan_timeBudget = 16, plan_winRate = 1 / 2,
      createdAt = 1000, updatedAt = 1001\<rparr>"

subsection \<open>Dependence on identifiers and the clock\<close>

text \<open>A result with the generated identifiers and the timestamps blanked.\<close>

definition anonymousStep :: "PlanStep \<Rightarrow> PlanStep" where
  "anonymousStep s = s\<lparr>step_id := []\<rparr>"

definition anonymousPlan :: "OptimizedPlan \<Rightarrow> OptimizedPlan" where
  "anonymousPlan p =
     p\<lparr>plan_id := [], steps := map anonymousStep (steps p), createdAt := 0, updatedAt := 0\<rparr>"

definition anonymousResult :: "OptimizationResult \<Rightarrow> OptimizationResult" where
  "anonymousResult r = r\<lparr>plan := map_option anonymousPlan (plan r)\<rparr>"

definition sameButIds :: "LoopState \<Rightarrow> LoopState \<Rightarrow> bool" where
  "sameButIds a b =
     (map anonymousStep (ls_steps a) = map anonymousStep (ls_steps b)
      \<and> ls_remainingTime a = ls_remainingTime b
      \<and> ls_questProgress a = ls_questProgress b
      \<and> ls_completedQuests a = ls_completedQuests b)"

subsection \<open>No active quests\<close>

text \<open>The input as \<open>OptimizationInputSchema\<close> accepts it.\<close>

definition questAccepted :: "(string \<Rightarrow> bool) \<Rightarrow> Quest \<Rightarrow> bool" where
  "questAccepted isUuid q = (isUuid (quest_id q) \<and> 0 \<le> remaining q \<and> 0 \<le> expiresInDays q)"

definition settingsAccepted :: "UserSettings option \<Rightarrow> bool" where
  "settingsAccepted settings =
     (case settings of
        None \<Rightarrow> True
      | Some s \<Rightarrow> 3 / 10 \<le> defaultWinRate s \<and> defaultWinRate s \<le> 8 / 10
                  \<and> 1 \<le> minutesPerGame s \<and> minutesPerGame s \<le> 60)"

subsection \<open>Monotonicity in double precision\<close>

text \<open>Two adjacent doubles: \<open>rateA\<close> is the double nearest to 0.229, that is
  \<open>8250594517342749 / 2^55\<close>, and \<open>rateB = 8250594517342750 / 2^55\<close> is the next
  double above it.\<close>

definition rateA :: real where
  "rateA = 8250594517342749 / 36028797018963968"

definition rateB :: real where
  "rateB = 4125297258671375 / 18014398509481984"

section \<open>The win-streak expectation\<close>

lemma fold_add_sum:
  "fold (\<lambda>i acc. acc + f i) [0 ..< m] (a::real) = a + (\<Sum>i<m. f i)"
  by (induction m) simp_all

lemma expectedFromArray_spec:
  assumes "2 \<le> length R"
  shows "expectedFromArray R w = winStreakExpectation R w"
proof -
  have "fold (\<lambda>wins acc. acc + (if wins = 0 then 1 - w else w ^ wins * (1 - w)) * R ! wins)
          [0 ..< length R - 1] 0
        = (\<Sum>wins<length R - 1. (if wins = 0 then 1 - w else w ^ wins * (1 - w)) * R ! wins)"
    using fold_add_sum [of "\<lambda>wins. (if wins = 0 then 1 - w else w ^ wins * (1 - w)) * R ! wins"
                          "length R - 1" 0]
    by simp
  then show ?thesis
    using assms
    by (auto simp: expectedFromArray_def winStreakExpectation_def stopProbability_def
                   Let_def mult.commute)
qed

lemma calculateExpectedReward_loop:
  assumes "2 \<le> length R"
  shows "fold (\<lambda>wins expectedReward.
                 let probability =
                       (if wins = 0 then 1 - w
                        else if wins = length R - 1 then w ^ wins
                        else w ^ wins * (1 - w))
                 in expectedReward + probability * R ! wins)
              [0 ..< length R] 0
         = winStreakExpectation R w"
proof -
  obtain n where n: "length R = Suc n" and n1: "1 \<le> n"
    using assms by (cases "length R") auto
  let ?p = "\<lambda>wins. (if wins = 0 then 1 - w
                     else if wins = n then w ^ wins
                     else w ^ wins * (1 - w)) * R ! wins"
  have body: "(\<lambda>wins expectedReward.
                 let probability =
                       (if wins = 0 then 1 - w
                        else if wins = length R - 1 then w ^ wins
                        else w ^ wins * (1 - w))
                 in expectedReward + probability * R ! wins)
              = (\<lambda>wins acc. acc + ?p wins)"
    by (intro ext) (simp add: n Let_def)
  have "fold (\<lambda>wins acc. acc + ?p wins) [0 ..< Suc n] 0 = (\<Sum>wins<Suc n. ?p wins)"
    using fold_add_sum [of ?p "Suc n" 0] by simp
  also have "\<dots> = (\<Sum>wins<n. ?p wins) + ?p n"
    by simp
  also have "(\<Sum>wins<n. ?p wins) = (\<Sum>wins<n. R ! wins * stopProbability w wins)"
    by (rule sum.cong) (auto simp: stopProbability_def)
  also have "?p n = w ^ n * R ! n"
    using n1 by simp
  finally have "fold (\<lambda>wins acc. acc + ?p wins) [0 ..< Suc n] 0
                = (\<Sum>wins<n. R ! wins * stopProbability w wins) + w ^ n * R ! n" .
  then show ?thesis
    unfolding body by (simp add: n winStreakExpectation_def Let_def)
qed

lemma winStreakExpectation_zero:
  assumes "2 \<le> length R"
  shows "winStreakExpectation R 0 = R ! 0"
proof -
  obtain n where n: "length R = Suc (Suc n)"
    using assms by (cases R; cases "tl R") auto
  have "(\<Sum>wins<Suc n. R ! wins * stopProbability 0 wins) = R ! 0"
    by (induction n) (simp_all add: stopProbability_def)
  then show ?thesis
    by (simp add: winStreakExpectation_def n Let_def)
qed

lemma winStreakExpectation_one:
  "winStreakExpectation R 1 = R ! (length R - 1)"
proof -
  have "(\<Sum>wins<length R - 1. R ! wins * stopProbability 1 wins) = 0"
    by (rule sum.neutral) (simp add: stopProbability_def)
  then show ?thesis
    by (simp add: winStreakExpectation_def Let_def)
qed

lemma calculateExpectedReward_spec:
  assumes "2 \<le> length R"
  shows "calculateExpectedReward R w = winStreakExpectation R w"
proof -
  have ne: "length R \<noteq> 0" using assms by auto
  show ?thesis
  proof (cases "w = 0 \<or> w = 1")
    case True
    then show ?thesis
      using ne winStreakExpectation_zero [OF assms] winStreakExpectation_one [of R]
      by (auto simp: calculateExpectedReward_def)
  next
    case False
    then show ?thesis
      using ne calculateExpectedReward_loop [OF assms, of w]
      by (simp add: calculateExpectedReward_def)
  qed
qed

lemma winRewards_length: "2 \<le> length (winRewards (QUEUE_REWARDS q))"
  by (cases q) (simp_all add: bo1Gold_def)

lemma getQueueRewardsWithFallback_eq [simp]:
  "getQueueRewardsWithFallback q = QUEUE_REWARDS q"
  by (simp add: getQueueRewardsWithFallback_def getQueueRewards_def)

lemma expectedGold_calculateQueueEV:
  "expectedGold (calculateQueueEV q w) = calculateExpectedReward (winRewards (QUEUE_REWARDS q)) w"
  by (simp add: calculateQueueEV_def Let_def)



section \<open>Monotonicity in the win rate\<close>

lemma stopProbability_power: "stopProbability w n = w ^ n * (1 - w)"
  by (simp add: stopProbability_def)

text \<open>Summation by parts: the expectation is \<open>R[0]\<close> plus the increments of \<open>R\<close>,
  the increment to \<open>k + 1\<close> weighted by the probability of winning \<open>k + 1\<close> games.\<close>

lemma winStreak_telescope:
  "(\<Sum>wins<n. R ! wins * stopProbability w wins) + w ^ n * R ! n
   = R ! 0 + (\<Sum>k<n. w ^ Suc k * (R ! Suc k - R ! k))"
  by (induction n) (simp_all add: stopProbability_power algebra_simps)

lemma winStreakExpectation_mono:
  assumes "sorted R" and "0 \<le> w1" and "w1 \<le> w2"
  shows "winStreakExpectation R w1 \<le> winStreakExpectation R w2"
proof -
  let ?n = "length R - 1"
  have "(\<Sum>k<?n. w1 ^ Suc k * (R ! Suc k - R ! k))
        \<le> (\<Sum>k<?n. w2 ^ Suc k * (R ! Suc k - R ! k))"
  proof (rule sum_mono)
    fix k assume "k \<in> {..<?n}"
    then have "Suc k < length R" by auto
    then have "R ! k \<le> R ! Suc k"
      using assms(1) by (simp add: sorted_nth_mono)
    moreover have "w1 ^ Suc k \<le> w2 ^ Suc k"
      using assms(2,3) by (rule power_mono[rotated])
    ultimately show "w1 ^ Suc k * (R ! Suc k - R ! k) \<le> w2 ^ Suc k * (R ! Suc k - R ! k)"
      by (intro mult_right_mono) simp_all
  qed
  then show ?thesis
    by (simp only: winStreakExpectation_def Let_def winStreak_telescope)
qed

lemma calculateExpectedReward_mono:
  assumes "2 \<le> length R" and "sorted R" and "0 \<le> w1" and "w1 \<le> w2"
  shows "calculateExpectedReward R w1 \<le> calculateExpectedReward R w2"
  using winStreakExpectation_mono [OF assms(2,3,4)]
  by (simp only: calculateExpectedReward_spec [OF assms(1)])

lemma winRewards_sorted: "sorted (winRewards (QUEUE_REWARDS q))"
  by (cases q) (simp_all add: bo1Gold_def)

lemma gemRewards_sorted:
  "gemRewards (QUEUE_REWARDS q) = Some g \<Longrightarrow> sorted g \<and> 2 \<le> length g"
  by (cases q) auto

lemma packRewards_sorted:
  "packRewards (QUEUE_REWARDS q) = Some p \<Longrightarrow> sorted p \<and> 2 \<le> length p"
  by (cases q) (auto simp: draftPacks_def)

lemma averageGameLength_pos: "0 < averageGameLength (QUEUE_REWARDS q)"
  by (cases q) simp_all

text \<open>
  Evaluated over the reals, \<open>calculateQueueEV\<close> is non-decreasing in the win rate on
  the whole of \<open>[0,1]\<close>, end points included: expected gold, gems and packs, and with
  them the gold equivalent, the net value and the value per minute.
\<close>

lemma calculateQueueEV_exact_mono:
  assumes "0 \<le> w1" and "w1 \<le> w2" and "w2 \<le> 1"
  shows "expectedGold (calculateQueueEV q w1) \<le> expectedGold (calculateQueueEV q w2)
       \<and> expectedGems (calculateQueueEV q w1) \<le> expectedGems (calculateQueueEV q w2)
       \<and> expectedPacks (calculateQueueEV q w1) \<le> expectedPacks (calculateQueueEV q w2)
       \<and> expectedValue (calculateQueueEV q w1) \<le> expectedValue (calculateQueueEV q w2)
       \<and> netValue (calculateQueueEV q w1) \<le> netValue (calculateQueueEV q w2)
       \<and> evPerMinute (calculateQueueEV q w1) \<le> evPerMinute (calculateQueueEV q w2)"
proof -
  let ?r = "QUEUE_REWARDS q"
  have gold: "calculateExpectedReward (winRewards ?r) w1
              \<le> calculateExpectedReward (winRewards ?r) w2"
    using calculateExpectedReward_mono [OF winRewards_length winRewards_sorted assms(1,2)] .
  have gems: "(case gemRewards ?r of Some g \<Rightarrow> calculateExpectedReward g w1 | None \<Rightarrow> 0)
            \<le> (case gemRewards ?r of Some g \<Rightarrow> calculateExpectedReward g w2 | None \<Rightarrow> 0)"
    using gemRewards_sorted [of q] calculateExpectedReward_mono [OF _ _ assms(1,2)]
    by (cases "gemRewards ?r") simp_all
  have packs: "(case packRewards ?r of Some g \<Rightarrow> calculateExpectedReward g w1 | None \<Rightarrow> 0)
            \<le> (case packRewards ?r of Some g \<Rightarrow> calculateExpectedReward g w2 | None \<Rightarrow> 0)"
    using packRewards_sorted [of q] calculateExpectedReward_mono [OF _ _ assms(1,2)]
    by (cases "packRewards ?r") simp_all
  show ?thesis
    using gold gems packs averageGameLength_pos [of q]
    by (simp add: calculateQueueEV_def Let_def divide_right_mono add_mono)
qed

section \<open>The two implementations of the expectation\<close>

text \<open>
  C10. For every queue type and every win rate in \<open>[0,1]\<close>, the reward model's
  \<open>calculateExpectedGoldReward\<close> returns the \<open>expectedGold\<close> component computed by
  \<open>calculateQueueEV\<close>.
\<close>

theorem C10_gold_reward_implementations_agree:
  assumes "0 \<le> winRate" and "winRate \<le> 1"
  shows "calculateExpectedGoldReward q winRate = expectedGold (calculateQueueEV q winRate)"
  by (simp only: calculateExpectedGoldReward_def expectedGold_calculateQueueEV
        getQueueRewardsWithFallback_eq
        expectedFromArray_spec [OF winRewards_length]
        calculateExpectedReward_spec [OF winRewards_length])

theorem C10_gold_reward_implementations_witness:
  "(0::real) \<le> 3 / 10 \<and> (3 / 10 :: real) \<le> 1
   \<and> calculateExpectedGoldReward TRADITIONAL_DRAFT (3 / 10) = 1170
   \<and> expectedGold (calculateQueueEV TRADITIONAL_DRAFT (3 / 10)) = 1170"
  using C10_gold_reward_implementations_agree [of "3 / 10" TRADITIONAL_DRAFT]
  by (simp add: calculateExpectedGoldReward_def expectedFromArray_def)

section \<open>Options fit and the loop terminates\<close>

lemma averageGameLength_ge7: "7 \<le> averageGameLength (QUEUE_REWARDS q)"
  by (cases q) simp_all

lemma evaluateQueueOption_Some:
  assumes "evaluateQueueOption q quests qp cq rt wr = Some opt"
  shows "opt_estimatedMinutes opt \<le> rt"
    and "opt_estimatedMinutes opt
         = max 1 (min 3 (Math_ceil (rt / averageGameLength (QUEUE_REWARDS q) / 2)))
           * averageGameLength (QUEUE_REWARDS q)"
    and "canCompleteInBudget opt"
    and "opt_queueType opt = q"
  using assms
  by (auto simp: evaluateQueueOption_def Let_def split: prod.splits if_splits)

lemma evaluateQueueOption_minutes_ge7:
  assumes "evaluateQueueOption q quests qp cq rt wr = Some opt"
  shows "7 \<le> opt_estimatedMinutes opt"
proof -
  let ?L = "averageGameLength (QUEUE_REWARDS q)"
  let ?g = "max 1 (min 3 (Math_ceil (rt / ?L / 2)))"
  have "1 * 7 \<le> ?g * ?L"
    using averageGameLength_ge7 [of q] by (intro mult_mono) simp_all
  then have "7 \<le> ?g * ?L" by simp
  then show ?thesis
    by (simp only: evaluateQueueOption_Some(2) [OF assms])
qed

lemma fold_considerQueue_from:
  assumes "fst best = None \<or> (\<exists>q. evaluateQueueOption q quests qp cq rt wr = fst best)"
  shows "fst (fold (considerQueue quests qp cq rt wr) qs best) = None
       \<or> (\<exists>q. evaluateQueueOption q quests qp cq rt wr
               = fst (fold (considerQueue quests qp cq rt wr) qs best))"
  using assms
proof (induction qs arbitrary: best)
  case Nil
  then show ?case by simp
next
  case (Cons q qs)
  have "fst (considerQueue quests qp cq rt wr q best) = None
        \<or> (\<exists>q'. evaluateQueueOption q' quests qp cq rt wr
                 = fst (considerQueue quests qp cq rt wr q best))"
    using Cons.prems
    by (auto simp: considerQueue_def split: option.splits)
  from Cons.IH [OF this] show ?case by simp
qed

lemma findBestQueueOption_Some:
  assumes "findBestQueueOption quests qp cq rt wr settings = Some opt"
  shows "\<exists>q. evaluateQueueOption q quests qp cq rt wr = Some opt"
  using fold_considerQueue_from [of "(None, NegInfinity)" quests qp cq rt wr "availableQueues settings"] assms
  by (auto simp: findBestQueueOption_def)

lemma findBestQueueOption_minutes:
  assumes "findBestQueueOption quests qp cq rt wr settings = Some opt"
  shows "7 \<le> opt_estimatedMinutes opt" and "opt_estimatedMinutes opt \<le> rt"
  using findBestQueueOption_Some [OF assms] evaluateQueueOption_minutes_ge7
        evaluateQueueOption_Some(1)
  by blast+

lemma ls_remainingTime_advance [simp]:
  "ls_remainingTime (advance w st opt) = ls_remainingTime st - opt_estimatedMinutes opt"
  by (simp add: advance_def Let_def)

termination greedyLoop
proof (relation "measure (\<lambda>(w, quests, winRate, settings, st). nat \<lceil>ls_remainingTime st\<rceil>)")
  show "wf (measure (\<lambda>(w, quests, winRate, settings, st). nat \<lceil>ls_remainingTime st\<rceil>))"
    by simp
next
  fix w :: World and quests winRate settings and st :: LoopState and bestOption
  assume pos: "0 < ls_remainingTime st \<and> length (ls_completedQuests st) < length (ls_questProgress st)"
    and best: "findBestQueueOption quests (ls_questProgress st) (ls_completedQuests st)
                 (ls_remainingTime st) winRate settings = Some bestOption"
  have "7 \<le> opt_estimatedMinutes bestOption"
    using findBestQueueOption_minutes(1) [OF best] .
  then have "\<lceil>ls_remainingTime st - opt_estimatedMinutes bestOption\<rceil> < \<lceil>ls_remainingTime st\<rceil>"
    by (simp add: ceiling_less_iff) linarith
  moreover have "0 < \<lceil>ls_remainingTime st\<rceil>" using pos by simp
  ultimately show "((w, quests, winRate, settings, advance w st bestOption),
                    (w, quests, winRate, settings, st))
                   \<in> measure (\<lambda>(w, quests, winRate, settings, st). nat \<lceil>ls_remainingTime st\<rceil>)"
    by simp
qed

section \<open>Invariants of the greedy loop\<close>

declare greedyLoop.simps [simp del]

lemma greedyLoop_stop:
  assumes "\<not> continues st \<or> bestFor quests wr settings st = None"
  shows "greedyLoop w quests wr settings st = st"
  using assms by (subst greedyLoop.simps) (auto simp: continues_def bestFor_def)

lemma greedyLoop_step:
  assumes "continues st" and "bestFor quests wr settings st = Some opt"
  shows "greedyLoop w quests wr settings st = greedyLoop w quests wr settings (advance w st opt)"
proof -
  have "\<not> opt_estimatedMinutes opt > ls_remainingTime st"
    using findBestQueueOption_minutes(2) [OF assms(2) [unfolded bestFor_def]] by simp
  then show ?thesis
    using assms by (subst greedyLoop.simps) (simp add: continues_def bestFor_def)
qed

lemma greedyLoop_invariant [case_names stop step]:
  assumes stop: "\<And>st. \<not> continues st \<or> bestFor quests wr settings st = None \<Longrightarrow> P st st"
    and step: "\<And>st opt. continues st \<Longrightarrow> bestFor quests wr settings st = Some opt
                 \<Longrightarrow> P (advance w st opt) (greedyLoop w quests wr settings (advance w st opt))
                 \<Longrightarrow> P st (greedyLoop w quests wr settings (advance w st opt))"
  shows "P st (greedyLoop w quests wr settings st)"
  using assms
proof (induction w quests wr settings st rule: greedyLoop.induct)
  case (1 w quests wr settings st)
  show ?case
  proof (cases "continues st")
    case False
    then show ?thesis using "1.prems"(1) by (simp add: greedyLoop_stop)
  next
    case True
    show ?thesis
    proof (cases "bestFor quests wr settings st")
      case None
      then show ?thesis using "1.prems"(1) by (simp add: greedyLoop_stop)
    next
      case (Some opt)
      have fits: "\<not> opt_estimatedMinutes opt > ls_remainingTime st"
        using findBestQueueOption_minutes(2) [OF Some [unfolded bestFor_def]] by simp
      have "P (advance w st opt) (greedyLoop w quests wr settings (advance w st opt))"
        using True Some fits "1.prems"
        by (intro "1.IH") (auto simp: continues_def bestFor_def)
      then show ?thesis
        using "1.prems"(2) [OF True Some] greedyLoop_step [OF True Some] by simp
    qed
  qed
qed

lemma fold_add_sum_list:
  "fold (\<lambda>x acc. acc + f x) xs (a::real) = a + sum_list (map f xs)"
  by (induction xs arbitrary: a) simp_all

lemma sumMinutes_sum_list: "sumMinutes xs = sum_list (map estimatedMinutes xs)"
  by (simp add: sumMinutes_def fold_add_sum_list)

lemma sumRewards_fold:
  "fold (\<lambda>step sum.
           \<lparr>gold = gold sum + gold (expectedRewards step),
            gems = gems sum + gems (expectedRewards step),
            packs = packs sum + packs (expectedRewards step)\<rparr>) xs acc
   = \<lparr>gold = gold acc + sum_list (map (\<lambda>s. gold (expectedRewards s)) xs),
      gems = gems acc + sum_list (map (\<lambda>s. gems (expectedRewards s)) xs),
      packs = packs acc + sum_list (map (\<lambda>s. packs (expectedRewards s)) xs)\<rparr>"
  by (induction xs arbitrary: acc) simp_all

lemma sumRewards_sum_list:
  "sumRewards xs
   = \<lparr>gold = sum_list (map (\<lambda>s. gold (expectedRewards s)) xs),
      gems = sum_list (map (\<lambda>s. gems (expectedRewards s)) xs),
      packs = sum_list (map (\<lambda>s. packs (expectedRewards s)) xs)\<rparr>"
  by (simp add: sumRewards_def sumRewards_fold)

lemma ls_steps_advance:
  "ls_steps (advance w st opt)
   = ls_steps st @ [createPlanStep (uuidv4 w (length (ls_steps st))) opt
                      (ls_questProgress st) (ls_completedQuests st)]"
  by (simp add: advance_def Let_def)

lemma estimatedMinutes_createPlanStep [simp]:
  "estimatedMinutes (createPlanStep u opt qp cq) = opt_estimatedMinutes opt"
  by (simp add: createPlanStep_def Let_def)

lemma greedyLoop_time:
  "sum_list (map estimatedMinutes (ls_steps (greedyLoop w quests wr settings st)))
     + ls_remainingTime (greedyLoop w quests wr settings st)
   = sum_list (map estimatedMinutes (ls_steps st)) + ls_remainingTime st"
  by (induction rule: greedyLoop_invariant) (simp_all add: ls_steps_advance)

lemma greedyLoop_remaining_nonneg:
  "0 \<le> ls_remainingTime st \<longrightarrow> 0 \<le> ls_remainingTime (greedyLoop w quests wr settings st)"
proof (induction rule: greedyLoop_invariant)
  case (stop st)
  then show ?case by simp
next
  case (step st opt)
  then show ?case
    using findBestQueueOption_minutes(2) [OF step(2) [unfolded bestFor_def]] by simp
qed









section \<open>What \<open>findBestQueueOption\<close> selects\<close>

lemma considerQueue_bestSoFar:
  assumes "bestSoFar (\<lambda>q. evaluateQueueOption q quests qp cq rt wr) qs best"
  shows "bestSoFar (\<lambda>q. evaluateQueueOption q quests qp cq rt wr) (qs @ [q])
           (considerQueue quests qp cq rt wr q best)"
proof (cases "evaluateQueueOption q quests qp cq rt wr")
  case None
  then have same: "considerQueue quests qp cq rt wr q best = best"
    by (simp add: considerQueue_def)
  show ?thesis
  proof (cases "fst best")
    case n: None
    then show ?thesis using assms None by (simp add: bestSoFar_def same)
  next
    case (Some opt)
    then obtain i where i: "i < length qs"
        "evaluateQueueOption (qs ! i) quests qp cq rt wr = Some opt"
        "\<forall>j<length qs. \<forall>opt'. evaluateQueueOption (qs ! j) quests qp cq rt wr = Some opt'
              \<longrightarrow> priority opt' \<le> priority opt \<and> (priority opt' = priority opt \<longrightarrow> i \<le> j)"
      and sb: "snd best = Finite (priority opt)"
      using assms by (auto simp: bestSoFar_def)
    have "\<forall>j<length (qs @ [q]). \<forall>opt'.
             evaluateQueueOption ((qs @ [q]) ! j) quests qp cq rt wr = Some opt'
              \<longrightarrow> priority opt' \<le> priority opt \<and> (priority opt' = priority opt \<longrightarrow> i \<le> j)"
      using i(3) None by (auto simp: nth_append less_Suc_eq)
    moreover have "evaluateQueueOption ((qs @ [q]) ! i) quests qp cq rt wr = Some opt"
      using i(1,2) by (simp add: nth_append)
    ultimately show ?thesis
      using Some sb i(1) unfolding bestSoFar_def same
      by (auto intro!: exI [of _ i])
  qed
next
  case (Some new)
  have can: "canCompleteInBudget new" using evaluateQueueOption_Some(3) [OF Some] .
  show ?thesis
  proof (cases "fst best")
    case None
    then have sb: "snd best = NegInfinity" and allNone: "list_all (\<lambda>q. evaluateQueueOption q quests qp cq rt wr = None) qs"
      using assms by (auto simp: bestSoFar_def)
    have upd: "considerQueue quests qp cq rt wr q best = (Some new, Finite (priority new))"
      using Some can sb by (simp add: considerQueue_def js_gt_def)
    have "\<forall>j<length (qs @ [q]). \<forall>opt'.
             evaluateQueueOption ((qs @ [q]) ! j) quests qp cq rt wr = Some opt'
              \<longrightarrow> priority opt' \<le> priority new
                  \<and> (priority opt' = priority new \<longrightarrow> length qs \<le> j)"
      using allNone Some by (auto simp: nth_append less_Suc_eq list_all_length)
    then show ?thesis
      unfolding bestSoFar_def upd using Some
      by (auto intro!: exI [of _ "length qs"])
  next
    case old: (Some opt)
    then obtain i where i: "i < length qs"
        "evaluateQueueOption (qs ! i) quests qp cq rt wr = Some opt"
        "\<forall>j<length qs. \<forall>opt'. evaluateQueueOption (qs ! j) quests qp cq rt wr = Some opt'
              \<longrightarrow> priority opt' \<le> priority opt \<and> (priority opt' = priority opt \<longrightarrow> i \<le> j)"
      and sb: "snd best = Finite (priority opt)"
      using assms by (auto simp: bestSoFar_def)
    show ?thesis
    proof (cases "priority new > priority opt")
      case True
      have upd: "considerQueue quests qp cq rt wr q best = (Some new, Finite (priority new))"
        using Some can sb True by (simp add: considerQueue_def js_gt_def)
      have "\<forall>j<length (qs @ [q]). \<forall>opt'.
               evaluateQueueOption ((qs @ [q]) ! j) quests qp cq rt wr = Some opt'
                \<longrightarrow> priority opt' \<le> priority new
                    \<and> (priority opt' = priority new \<longrightarrow> length qs \<le> j)"
        using i(3) Some True by (fastforce simp: nth_append less_Suc_eq)
      then show ?thesis
        unfolding bestSoFar_def upd using Some
        by (auto intro!: exI [of _ "length qs"])
    next
      case False
      have same: "considerQueue quests qp cq rt wr q best = best"
        using Some sb False by (simp add: considerQueue_def js_gt_def)
      have "\<forall>j<length (qs @ [q]). \<forall>opt'.
               evaluateQueueOption ((qs @ [q]) ! j) quests qp cq rt wr = Some opt'
                \<longrightarrow> priority opt' \<le> priority opt \<and> (priority opt' = priority opt \<longrightarrow> i \<le> j)"
        using i(1,3) Some False by (auto simp: nth_append less_Suc_eq)
      moreover have "evaluateQueueOption ((qs @ [q]) ! i) quests qp cq rt wr = Some opt"
        using i(1,2) by (simp add: nth_append)
      ultimately show ?thesis
        using old sb i(1) unfolding bestSoFar_def same
        by (auto intro!: exI [of _ i])
    qed
  qed
qed

lemma fold_considerQueue_bestSoFar:
  "bestSoFar (\<lambda>q. evaluateQueueOption q quests qp cq rt wr) qs
     (fold (considerQueue quests qp cq rt wr) qs (None, NegInfinity))"
proof (induction qs rule: rev_induct)
  case Nil
  show ?case by (simp add: bestSoFar_def)
next
  case (snoc q qs)
  show ?case using considerQueue_bestSoFar [OF snoc] by simp
qed

lemma findBestQueueOption_None_iff:
  "findBestQueueOption quests qp cq rt wr settings = None
   \<longleftrightarrow> list_all (\<lambda>q. evaluateQueueOption q quests qp cq rt wr = None) (availableQueues settings)"
proof -
  let ?E = "\<lambda>q. evaluateQueueOption q quests qp cq rt wr"
  let ?r = "fold (considerQueue quests qp cq rt wr) (availableQueues settings) (None, NegInfinity)"
  have inv: "bestSoFar ?E (availableQueues settings) ?r"
    by (rule fold_considerQueue_bestSoFar)
  show ?thesis
  proof
    assume "findBestQueueOption quests qp cq rt wr settings = None"
    then have "fst ?r = None" by (simp add: findBestQueueOption_def)
    then show "list_all (\<lambda>q. ?E q = None) (availableQueues settings)"
      using inv by (simp add: bestSoFar_def)
  next
    assume allNone: "list_all (\<lambda>q. ?E q = None) (availableQueues settings)"
    show "findBestQueueOption quests qp cq rt wr settings = None"
    proof (cases "fst ?r")
      case None
      then show ?thesis by (simp add: findBestQueueOption_def)
    next
      case (Some opt)
      then obtain i where "i < length (availableQueues settings)"
          "?E (availableQueues settings ! i) = Some opt"
        using inv by (auto simp: bestSoFar_def)
      then show ?thesis using allNone by (auto simp: list_all_length)
    qed
  qed
qed

section \<open>Successful results of \<open>optimizePlan\<close>\<close>






lemma validateOptimizationInput_ok:
  assumes "validateOptimizationInput isUuid quests tb wr settings = []"
  shows "15 \<le> tb" and "tb \<le> 180" and "3 / 10 \<le> wr" and "wr \<le> 8 / 10"
  using assms by (auto simp: validateOptimizationInput_def split: if_splits)

lemma optimizePlan_success:
  assumes "success (optimizePlan isUuid w quests tb wr settings)"
  shows "validateOptimizationInput isUuid quests tb wr settings = []"
    and "feasibleOf quests tb wr settings \<noteq> []"
    and "plan (optimizePlan isUuid w quests tb wr settings)
         = Some (generateOptimizedPlan w (feasibleOf quests tb wr settings) tb wr
                   (userSettingsOf settings))"
  using assms
  by (auto simp: optimizePlan_def Let_def feasibleOf_def userSettingsOf_def split: if_splits)

lemma generateOptimizedPlan_fields:
  "steps (generateOptimizedPlan w quests tb wr s)
   = ls_steps (greedyLoop w quests wr s
        \<lparr>ls_steps = [], ls_remainingTime = tb,
         ls_questProgress = initProgress quests, ls_completedQuests = []\<rparr>)"
  "totalEstimatedMinutes (generateOptimizedPlan w quests tb wr s)
   = sumMinutes (steps (generateOptimizedPlan w quests tb wr s))"
  "totalExpectedRewards (generateOptimizedPlan w quests tb wr s)
   = sumRewards (steps (generateOptimizedPlan w quests tb wr s))"
  "plan_timeBudget (generateOptimizedPlan w quests tb wr s) = tb"
  by (simp_all add: generateOptimizedPlan_def Let_def)

lemma generateOptimizedPlan_minutes_le:
  assumes "0 \<le> tb"
  shows "sumMinutes (steps (generateOptimizedPlan w quests tb wr s)) \<le> tb"
proof -
  let ?init = "\<lparr>ls_steps = [], ls_remainingTime = tb,
                ls_questProgress = initProgress quests, ls_completedQuests = []\<rparr>"
  have "sum_list (map estimatedMinutes (ls_steps (greedyLoop w quests wr s ?init)))
          + ls_remainingTime (greedyLoop w quests wr s ?init) = tb"
    using greedyLoop_time [of w quests wr s ?init] by simp
  moreover have "0 \<le> ls_remainingTime (greedyLoop w quests wr s ?init)"
    using greedyLoop_remaining_nonneg [of ?init w quests wr s] assms by simp
  ultimately show ?thesis
    by (simp add: generateOptimizedPlan_fields(1) sumMinutes_sum_list)
qed





section \<open>A worked example\<close>

lemma castQuest_fields [simp]:
  "quest_id castQuest = ''123e4567-e89b-12d3-a456-426614174002''"
  "quest_type castQuest = CAST"
  "remaining castQuest = 10"
  "expiresInDays castQuest = 3"
  by (simp_all add: castQuest_def)

lemma ev_standard_half:
  "calculateQueueEV STANDARD_BO1 (1 / 2)
   = \<lparr>expectedValue = 975 / 32, expectedGold = 975 / 32, expectedGems = 0, expectedPacks = 0,
      entryCost = 0, netValue = 975 / 32, evPerMinute = 975 / 256\<rparr>"
  by (simp add: calculateQueueEV_def calculateExpectedReward_def bo1Gold_def Let_def)

lemma example_validates:
  "validateOptimizationInput isUuid36 [castQuest] 15 (1 / 2) (Some standardOnly) = []"
  by (simp add: validateOptimizationInput_def questIssues_def settingsIssues_def isUuid36_def
                standardOnly_def)

lemma example_progress:
  "calculateQuestProgressRate castQuest STANDARD_BO1 (1 / 2)
   = \<lparr>progressPerGame = 10, estimatedGamesToComplete = Finite 1,
      estimatedMinutesToComplete = Finite 8\<rparr>"
  by (simp add: calculateQuestProgressRate_def Let_def Math_ceil_def)

lemma example_can:
  "canQuestBeCompletedInTime castQuest 15 (1 / 2) (preferredQueues standardOnly)"
  by (simp add: canQuestBeCompletedInTime_def estimateQuestCompletion_def example_progress
        Let_def standardOnly_def)

lemma example_option:
  "evaluateQueueOption STANDARD_BO1 [castQuest] (initProgress [castQuest]) [] 15 (1 / 2)
   = Some \<lparr>opt_queueType = STANDARD_BO1,
            ev = EVResult.extend (calculateQueueEV STANDARD_BO1 (1 / 2))
                   \<lparr>questCompletionBonus = 500\<rparr>,
            opt_questProgress = [\<lparr>op_questId = quest_id castQuest, op_progressAmount = 10,
                                  op_estimatedGamesToComplete = Finite 1\<rparr>],
            opt_estimatedMinutes = 8, canCompleteInBudget = True,
            priority = 16975 / 256\<rparr>"
  by (simp add: evaluateQueueOption_def evaluateQuest_def getOrZero_def example_progress
        Let_def Math_ceil_def ev_standard_half initProgress_def)

lemma example_best:
  "findBestQueueOption [castQuest] (initProgress [castQuest]) [] 15 (1 / 2) standardOnly
   = evaluateQueueOption STANDARD_BO1 [castQuest] (initProgress [castQuest]) [] 15 (1 / 2)"
  by (simp add: findBestQueueOption_def availableQueues_def standardOnly_def considerQueue_def
        example_option js_gt_def)

lemma example_loop:
  "greedyLoop world0 [castQuest] (1 / 2) standardOnly
     \<lparr>ls_steps = [], ls_remainingTime = 15,
      ls_questProgress = initProgress [castQuest], ls_completedQuests = []\<rparr>
   = \<lparr>ls_steps = [exampleStep], ls_remainingTime = 7,
      ls_questProgress = [(quest_id castQuest, 0)],
      ls_completedQuests = [quest_id castQuest]\<rparr>"
proof -
  let ?init = "\<lparr>ls_steps = [], ls_remainingTime = 15,
      ls_questProgress = initProgress [castQuest], ls_completedQuests = []\<rparr>"
  let ?next = "\<lparr>ls_steps = [exampleStep], ls_remainingTime = 7,
      ls_questProgress = [(quest_id castQuest, 0)],
      ls_completedQuests = [quest_id castQuest]\<rparr>"
  have adv: "advance world0 ?init (the (evaluateQueueOption STANDARD_BO1 [castQuest]
               (initProgress [castQuest]) [] 15 (1 / 2))) = ?next"
    by (simp only: example_option option.sel)
       (simp add: advance_def createPlanStep_def applyProgress_def getOrZero_def
          setAdd_def initProgress_def world0_def exampleStep_def Let_def Math_ceil_def
          Math_round_def ev_standard_half EVResult.defs)
  have c: "continues ?init" by (simp add: continues_def initProgress_def)
  have b: "bestFor [castQuest] (1 / 2) standardOnly ?init
           = Some (the (evaluateQueueOption STANDARD_BO1 [castQuest]
               (initProgress [castQuest]) [] 15 (1 / 2)))"
    by (simp add: bestFor_def example_best example_option)
  have "\<not> continues ?next" by (simp add: continues_def)
  then have "greedyLoop world0 [castQuest] (1 / 2) standardOnly ?next = ?next"
    by (simp add: greedyLoop_stop)
  then show ?thesis
    by (simp only: greedyLoop_step [OF c b] adv)
qed

lemma example_result:
  "optimizePlan isUuid36 world0 [castQuest] 15 (1 / 2) (Some standardOnly)
   = \<lparr>success = True, plan = Some examplePlan, error = None, warnings = Some []\<rparr>"
proof -
  have p: "generateOptimizedPlan world0 [castQuest] 15 (1 / 2) standardOnly = examplePlan"
    by (simp only: generateOptimizedPlan_def example_loop Let_def)
       (simp add: examplePlan_def world0_def sumMinutes_def sumRewards_def exampleStep_def)
  show ?thesis
    by (simp add: optimizePlan_def example_validates Let_def example_can p generateWarnings_def)
       (simp add: examplePlan_def)
qed

section \<open>Totals and step count of a returned plan\<close>







text \<open>
  C2. For every successful result of \<open>optimizePlan\<close>, the plan's
  \<open>totalEstimatedMinutes\<close> is the sum of its steps' \<open>estimatedMinutes\<close> and does not
  exceed the \<open>timeBudget\<close> argument (which the plan records), and its
  \<open>totalExpectedRewards\<close> is the sum of its steps' \<open>expectedRewards\<close> in each of gold,
  gems and packs.
\<close>

theorem C2_plan_totals:
  assumes "success (optimizePlan isUuid w quests tb wr settings)"
  shows "\<exists>p. plan (optimizePlan isUuid w quests tb wr settings) = Some p
           \<and> totalEstimatedMinutes p = sum_list (map estimatedMinutes (steps p))
           \<and> totalEstimatedMinutes p \<le> tb
           \<and> plan_timeBudget p = tb
           \<and> gold (totalExpectedRewards p)
               = sum_list (map (\<lambda>s. gold (expectedRewards s)) (steps p))
           \<and> gems (totalExpectedRewards p)
               = sum_list (map (\<lambda>s. gems (expectedRewards s)) (steps p))
           \<and> packs (totalExpectedRewards p)
               = sum_list (map (\<lambda>s. packs (expectedRewards s)) (steps p))"
proof -
  let ?p = "generateOptimizedPlan w (feasibleOf quests tb wr settings) tb wr
              (userSettingsOf settings)"
  have "0 \<le> tb"
    using validateOptimizationInput_ok(1) [OF optimizePlan_success(1) [OF assms]] by simp
  then have "sumMinutes (steps ?p) \<le> tb" by (rule generateOptimizedPlan_minutes_le)
  then show ?thesis
    using optimizePlan_success(3) [OF assms]
    by (simp add: generateOptimizedPlan_fields sumMinutes_sum_list sumRewards_sum_list)
qed

theorem C2_plan_totals_witness:
  "success (optimizePlan isUuid36 world0 [castQuest] 15 (1 / 2) (Some standardOnly))
   \<and> plan (optimizePlan isUuid36 world0 [castQuest] 15 (1 / 2) (Some standardOnly))
       = Some examplePlan
   \<and> totalEstimatedMinutes examplePlan = 8
   \<and> sum_list (map estimatedMinutes (steps examplePlan)) = 8
   \<and> totalEstimatedMinutes examplePlan \<le> 15
   \<and> gold (totalExpectedRewards examplePlan) = 30"
  using C2_plan_totals [of isUuid36 world0 "[castQuest]" 15 "1 / 2" "Some standardOnly"]
  by (simp add: example_result) (simp add: examplePlan_def)

section \<open>A plan of ten steps\<close>

lemma longQuest_fields [simp]:
  "quest_id longQuest = quest_id castQuest"
  "quest_type longQuest = CAST"
  "remaining longQuest = 100"
  "expiresInDays longQuest = 3"
  by (simp_all add: longQuest_def)








section \<open>The selection rule\<close>

lemma example_progress_explorer:
  "calculateQuestProgressRate castQuest EXPLORER_BO1 (1 / 2)
   = \<lparr>progressPerGame = 10, estimatedGamesToComplete = Finite 1,
      estimatedMinutesToComplete = Finite 8\<rparr>"
  by (simp add: calculateQuestProgressRate_def Let_def Math_ceil_def)

lemma ev_explorer_half:
  "calculateQueueEV EXPLORER_BO1 (1 / 2) = calculateQueueEV STANDARD_BO1 (1 / 2)"
  by (simp add: calculateQueueEV_def)

lemma example_option_explorer:
  "evaluateQueueOption EXPLORER_BO1 [castQuest] (initProgress [castQuest]) [] 15 (1 / 2)
   = Some \<lparr>opt_queueType = EXPLORER_BO1,
            ev = EVResult.extend (calculateQueueEV STANDARD_BO1 (1 / 2))
                   \<lparr>questCompletionBonus = 500\<rparr>,
            opt_questProgress = [\<lparr>op_questId = quest_id castQuest, op_progressAmount = 10,
                                  op_estimatedGamesToComplete = Finite 1\<rparr>],
            opt_estimatedMinutes = 8, canCompleteInBudget = True,
            priority = 16975 / 256\<rparr>"
  by (simp add: evaluateQueueOption_def evaluateQuest_def getOrZero_def
        example_progress_explorer Let_def Math_ceil_def ev_explorer_half ev_standard_half
        initProgress_def)

lemma example_best_of_two:
  "findBestQueueOption [castQuest] (initProgress [castQuest]) [] 15 (1 / 2) standardAndExplorer
   = evaluateQueueOption STANDARD_BO1 [castQuest] (initProgress [castQuest]) [] 15 (1 / 2)"
  by (simp add: findBestQueueOption_def availableQueues_def standardAndExplorer_def
        considerQueue_def example_option example_option_explorer js_gt_def)

lemma explorer_before_standard: "queueId EXPLORER_BO1 < queueId STANDARD_BO1"
  by simp

text \<open>
  C4 as stated fails on ties. With the preferred queues Standard, Explorer (in this
  order) both options fit the 15 minutes, have the same priority and advance the same
  quest by the same amount, and \<open>explorer_bo1\<close> precedes \<open>standard_bo1\<close>
  lexicographically; the optimizer selects Standard.
\<close>

theorem C4_tie_break_counterexample:
  "map_option opt_queueType
     (findBestQueueOption [castQuest] (initProgress [castQuest]) [] 15 (1 / 2)
        standardAndExplorer) = Some STANDARD_BO1
   \<and> map_option opt_estimatedMinutes
       (evaluateQueueOption EXPLORER_BO1 [castQuest] (initProgress [castQuest]) [] 15 (1 / 2))
       = Some 8
   \<and> map_option priority
       (evaluateQueueOption EXPLORER_BO1 [castQuest] (initProgress [castQuest]) [] 15 (1 / 2))
     = map_option priority
         (findBestQueueOption [castQuest] (initProgress [castQuest]) [] 15 (1 / 2)
            standardAndExplorer)
   \<and> map_option opt_questProgress
       (evaluateQueueOption EXPLORER_BO1 [castQuest] (initProgress [castQuest]) [] 15 (1 / 2))
     = map_option opt_questProgress
         (findBestQueueOption [castQuest] (initProgress [castQuest]) [] 15 (1 / 2)
            standardAndExplorer)
   \<and> queueId EXPLORER_BO1 < queueId STANDARD_BO1"
  by (simp add: example_best_of_two example_option example_option_explorer)

text \<open>
  C4, amended. At each iteration \<open>findBestQueueOption\<close> returns, among the options of
  the available queues that fit the remaining time (\<open>evaluateQueueOption\<close> returns
  \<open>null\<close> for the others), one of the highest priority; among several of the highest
  priority it returns the one whose queue comes first in the list of available queues
  (the preferred queues in the caller's order, or all queues in declaration order).
  It returns \<open>null\<close> exactly when no option fits.
\<close>

theorem C4_selects_first_of_highest_priority:
  "case findBestQueueOption quests qp cq rt wr settings of
     None \<Rightarrow>
       list_all (\<lambda>q. evaluateQueueOption q quests qp cq rt wr = None)
         (availableQueues settings)
   | Some best \<Rightarrow>
       opt_estimatedMinutes best \<le> rt
       \<and> (\<exists>i<length (availableQueues settings).
             evaluateQueueOption (availableQueues settings ! i) quests qp cq rt wr = Some best
             \<and> (\<forall>j<length (availableQueues settings). \<forall>opt'.
                   evaluateQueueOption (availableQueues settings ! j) quests qp cq rt wr
                     = Some opt'
                   \<longrightarrow> opt_estimatedMinutes opt' \<le> rt
                       \<and> priority opt' \<le> priority best
                       \<and> (priority opt' = priority best \<longrightarrow> i \<le> j)))"
proof (cases "findBestQueueOption quests qp cq rt wr settings")
  case None
  then show ?thesis using findBestQueueOption_None_iff [of quests qp cq rt wr settings] by simp
next
  case (Some best)
  let ?E = "\<lambda>q. evaluateQueueOption q quests qp cq rt wr"
  have "bestSoFar ?E (availableQueues settings)
          (fold (considerQueue quests qp cq rt wr) (availableQueues settings)
             (None, NegInfinity))"
    by (rule fold_considerQueue_bestSoFar)
  then obtain i where i: "i < length (availableQueues settings)"
      "?E (availableQueues settings ! i) = Some best"
      "\<forall>j<length (availableQueues settings). \<forall>opt'.
          ?E (availableQueues settings ! j) = Some opt'
          \<longrightarrow> priority opt' \<le> priority best \<and> (priority opt' = priority best \<longrightarrow> i \<le> j)"
    using Some by (auto simp: bestSoFar_def findBestQueueOption_def)
  have "\<forall>j<length (availableQueues settings). \<forall>opt'.
          ?E (availableQueues settings ! j) = Some opt'
          \<longrightarrow> opt_estimatedMinutes opt' \<le> rt
              \<and> priority opt' \<le> priority best \<and> (priority opt' = priority best \<longrightarrow> i \<le> j)"
    using i(3) evaluateQueueOption_Some(1) by blast
  then show ?thesis
    using Some i(1,2) findBestQueueOption_minutes(2) [OF Some] by auto
qed

theorem C4_selects_first_witness:
  "findBestQueueOption [castQuest] (initProgress [castQuest]) [] 15 (1 / 2) standardAndExplorer
   = evaluateQueueOption (availableQueues standardAndExplorer ! 0) [castQuest]
       (initProgress [castQuest]) [] 15 (1 / 2)
   \<and> map_option priority
       (evaluateQueueOption (availableQueues standardAndExplorer ! 0) [castQuest]
          (initProgress [castQuest]) [] 15 (1 / 2)) = Some (16975 / 256)
   \<and> map_option priority
       (evaluateQueueOption (availableQueues standardAndExplorer ! 1) [castQuest]
          (initProgress [castQuest]) [] 15 (1 / 2)) = Some (16975 / 256)"
proof -
  let ?E = "\<lambda>q. evaluateQueueOption q [castQuest] (initProgress [castQuest]) [] 15 (1 / 2)"
  let ?qs = "availableQueues standardAndExplorer"
  have qs: "?qs = [STANDARD_BO1, EXPLORER_BO1]"
    by (simp add: availableQueues_def standardAndExplorer_def)
  have e0: "?E (?qs ! 0) = ?E STANDARD_BO1" and e1: "?E (?qs ! 1) = ?E EXPLORER_BO1"
    by (simp_all add: qs)
  have notNone: "\<not> list_all (\<lambda>q. ?E q = None) ?qs"
    by (simp add: qs example_option)
  obtain best where best:
      "findBestQueueOption [castQuest] (initProgress [castQuest]) [] 15 (1 / 2)
         standardAndExplorer = Some best"
    using C4_selects_first_of_highest_priority
            [of "[castQuest]" "initProgress [castQuest]" "[]" 15 "1 / 2" standardAndExplorer]
          notNone
    by (cases "findBestQueueOption [castQuest] (initProgress [castQuest]) [] 15 (1 / 2)
                 standardAndExplorer") auto
  then obtain i where i: "i < length ?qs" "?E (?qs ! i) = Some best"
      "\<forall>j<length ?qs. \<forall>opt'. ?E (?qs ! j) = Some opt'
          \<longrightarrow> opt_estimatedMinutes opt' \<le> 15 \<and> priority opt' \<le> priority best
              \<and> (priority opt' = priority best \<longrightarrow> i \<le> j)"
    using C4_selects_first_of_highest_priority
            [of "[castQuest]" "initProgress [castQuest]" "[]" 15 "1 / 2" standardAndExplorer]
    by auto
  have pb: "priority best = 16975 / 256"
    using i(1,2) by (cases i) (auto simp: qs example_option example_option_explorer)
  have "i \<le> 0"
    using i(3) [rule_format, of 0] pb by (simp add: qs example_option)
  then have "?E (?qs ! 0) = Some best" using i(2) by simp
  then have a: "findBestQueueOption [castQuest] (initProgress [castQuest]) [] 15 (1 / 2)
                  standardAndExplorer = ?E (?qs ! 0)"
    using best by simp
  have b: "map_option priority (?E (?qs ! 0)) = Some (16975 / 256)"
    by (simp add: qs example_option)
  have c: "map_option priority (?E (?qs ! 1)) = Some (16975 / 256)"
    by (simp add: qs example_option_explorer)
  show ?thesis using a b c by (intro conjI)
qed

section \<open>Marking steps\<close>

text \<open>
  C6 as stated fails: \<open>updatePlanProgress\<close> also sets \<open>updatedAt\<close> to the current
  time. Marking the step of the example plan at time 2000 changes \<open>updatedAt\<close> from
  1001 to 2000.
\<close>

theorem C6_updatedAt_counterexample:
  "updatedAt (updatePlanProgress world1 examplePlan ''step-0'' True) = 2000
   \<and> updatedAt examplePlan = 1001
   \<and> updatePlanProgress world1 examplePlan ''step-0'' True
       \<noteq> examplePlan\<lparr>steps := [exampleStep\<lparr>completed := True\<rparr>]\<rparr>"
  by (simp add: updatePlanProgress_def world1_def examplePlan_def)

text \<open>
  C6, amended. \<open>updatePlanProgress\<close> returns a plan in which every step whose id is the
  given one has its \<open>completed\<close> flag set to the given value and \<open>updatedAt\<close> is the
  current time; every other field of the plan, every other field of every step, and
  every step with another id are as in the input plan. The function neither takes nor
  returns quests.
\<close>

theorem C6_only_completed_and_updatedAt_change:
  "plan_id (updatePlanProgress w p stepId flag) = plan_id p
   \<and> totalEstimatedMinutes (updatePlanProgress w p stepId flag) = totalEstimatedMinutes p
   \<and> totalExpectedRewards (updatePlanProgress w p stepId flag) = totalExpectedRewards p
   \<and> questsCompleted (updatePlanProgress w p stepId flag) = questsCompleted p
   \<and> plan_timeBudget (updatePlanProgress w p stepId flag) = plan_timeBudget p
   \<and> plan_winRate (updatePlanProgress w p stepId flag) = plan_winRate p
   \<and> createdAt (updatePlanProgress w p stepId flag) = createdAt p
   \<and> updatedAt (updatePlanProgress w p stepId flag) = newDate w 0
   \<and> length (steps (updatePlanProgress w p stepId flag)) = length (steps p)
   \<and> (\<forall>i<length (steps p).
         steps (updatePlanProgress w p stepId flag) ! i
         = (if step_id (steps p ! i) = stepId
            then (steps p ! i)\<lparr>completed := flag\<rparr> else steps p ! i))"
  by (simp add: updatePlanProgress_def)

theorem C6_only_completed_witness:
  "steps (updatePlanProgress world1 examplePlan ''step-0'' True)
     = [exampleStep\<lparr>completed := True\<rparr>]
   \<and> steps (updatePlanProgress world1 examplePlan ''other'' True) = [exampleStep]
   \<and> totalEstimatedMinutes (updatePlanProgress world1 examplePlan ''step-0'' True) = 8"
proof -
  have len: "length (steps examplePlan) = 1" and s0: "steps examplePlan ! 0 = exampleStep"
    and id0: "step_id exampleStep = ''step-0''"
    by (simp_all add: examplePlan_def exampleStep_def)
  have a: "steps (updatePlanProgress world1 examplePlan ''step-0'' True) ! 0
           = exampleStep\<lparr>completed := True\<rparr>"
    and la: "length (steps (updatePlanProgress world1 examplePlan ''step-0'' True)) = 1"
    and t: "totalEstimatedMinutes (updatePlanProgress world1 examplePlan ''step-0'' True) = 8"
    using C6_only_completed_and_updatedAt_change [of world1 examplePlan "''step-0''" True]
    by (simp_all add: len s0 id0) (simp add: examplePlan_def)
  have b: "steps (updatePlanProgress world1 examplePlan ''other'' True) ! 0 = exampleStep"
    and lb: "length (steps (updatePlanProgress world1 examplePlan ''other'' True)) = 1"
    using C6_only_completed_and_updatedAt_change [of world1 examplePlan "''other''" True]
    by (simp_all add: len s0 id0)
  have one: "length xs = 1 \<Longrightarrow> xs = [xs ! 0]" for xs :: "PlanStep list"
    by (cases xs) auto
  show ?thesis
    using one [OF la] one [OF lb] a b t by simp
qed

section \<open>Recalculation\<close>

lemma exampleDone_eq:
  "exampleDone = examplePlan\<lparr>steps := [exampleStep\<lparr>completed := True\<rparr>], updatedAt := 2000\<rparr>"
  by (simp add: exampleDone_def updatePlanProgress_def examplePlan_def exampleStep_def
        world1_def)

text \<open>
  C7 as stated fails: the branch is taken on the time left, not on the steps being
  completed. The example plan has a budget of 15 minutes and one step of 8; with that
  step completed 7 minutes remain, and \<open>recalculatePlan\<close> answers with the
  insufficient-remaining-time warning instead.
\<close>

theorem C7_all_completed_counterexample:
  "list_all completed (steps exampleDone)
   \<and> warnings (recalculatePlan isUuid36 world1 exampleDone [castQuest] (Some standardOnly))
       = Some [InsufficientRemaining]"
  by (simp add: exampleDone_eq recalculatePlan_def sumMinutes_def Let_def)
     (simp add: examplePlan_def exampleStep_def)

text \<open>
  C7, amended. For every plan whose completed steps take at least the plan's time
  budget, \<open>recalculatePlan\<close> returns a successful result with the current plan, changed
  only in \<open>updatedAt\<close> (the current time), and the single warning that all allocated
  time has been used; the plan's steps are those of the input.
\<close>

theorem C7_no_time_left:
  assumes "plan_timeBudget p \<le> sum_list (map estimatedMinutes (filter completed (steps p)))"
  shows "recalculatePlan isUuid w p quests settings
         = \<lparr>success = True, plan = Some (p\<lparr>updatedAt := newDate w 0\<rparr>), error = None,
            warnings = Some [AllTimeUsed]\<rparr>
       \<and> steps (p\<lparr>updatedAt := newDate w 0\<rparr>) = steps p"
  using assms by (simp add: recalculatePlan_def Let_def sumMinutes_sum_list)

theorem C7_no_time_left_witness:
  "plan_timeBudget twoStepsDone
     \<le> sum_list (map estimatedMinutes (filter completed (steps twoStepsDone)))
   \<and> recalculatePlan isUuid36 world1 twoStepsDone [castQuest] None
       = \<lparr>success = True, plan = Some (twoStepsDone\<lparr>updatedAt := 2000\<rparr>), error = None,
          warnings = Some [AllTimeUsed]\<rparr>"
proof -
  have h: "plan_timeBudget twoStepsDone
           \<le> sum_list (map estimatedMinutes (filter completed (steps twoStepsDone)))"
    by (simp add: twoStepsDone_def exampleStep_def)
  show ?thesis
    using h C7_no_time_left [OF h, of isUuid36 world1 "[castQuest]" None]
    by (simp add: world1_def)
qed

section \<open>Dependence on identifiers and the clock\<close>

text \<open>
  C8 as stated fails: the plan and its steps carry fresh \<open>uuidv4()\<close> identifiers and
  \<open>new Date()\<close> timestamps, so two calls with the same arguments return different
  results when the generator or the clock answer differently.
\<close>

theorem C8_identical_results_counterexample:
  "optimizePlan isUuid36 world0 [castQuest] 15 (1 / 2) (Some standardOnly)
   \<noteq> optimizePlan isUuid36 world1 [castQuest] 15 (1 / 2) (Some standardOnly)"
proof
  assume eq: "optimizePlan isUuid36 world0 [castQuest] 15 (1 / 2) (Some standardOnly)
              = optimizePlan isUuid36 world1 [castQuest] 15 (1 / 2) (Some standardOnly)"
  have s0: "success (optimizePlan isUuid36 world0 [castQuest] 15 (1 / 2) (Some standardOnly))"
    by (simp add: example_result)
  then have s1: "success (optimizePlan isUuid36 world1 [castQuest] 15 (1 / 2) (Some standardOnly))"
    using eq by simp
  have "map_option createdAt
          (plan (optimizePlan isUuid36 world0 [castQuest] 15 (1 / 2) (Some standardOnly)))
        = Some 1000"
    by (simp only: optimizePlan_success(3) [OF s0])
       (simp add: generateOptimizedPlan_def Let_def world0_def)
  moreover have "map_option createdAt
          (plan (optimizePlan isUuid36 world1 [castQuest] 15 (1 / 2) (Some standardOnly)))
        = Some 2000"
    by (simp only: optimizePlan_success(3) [OF s1])
       (simp add: generateOptimizedPlan_def Let_def world1_def)
  ultimately show False using eq by simp
qed

lemma sameButIds_continues: "sameButIds a b \<Longrightarrow> continues b = continues a"
  by (simp add: sameButIds_def continues_def)

lemma sameButIds_bestFor: "sameButIds a b \<Longrightarrow> bestFor quests wr s b = bestFor quests wr s a"
  by (simp add: sameButIds_def bestFor_def)

lemma sameButIds_advance:
  "sameButIds a b \<Longrightarrow> sameButIds (advance w a opt) (advance w' b opt)"
  by (simp add: sameButIds_def advance_def Let_def createPlanStep_def anonymousStep_def)

lemma greedyLoop_sameButIds:
  "\<forall>b. sameButIds st b
        \<longrightarrow> sameButIds (greedyLoop w quests wr s st) (greedyLoop w' quests wr s b)"
proof (induction rule: greedyLoop_invariant)
  case (stop st)
  show ?case
  proof (intro allI impI)
    fix b assume ab: "sameButIds st b"
    have "\<not> continues b \<or> bestFor quests wr s b = None"
      using stop by (simp add: sameButIds_continues [OF ab] sameButIds_bestFor [OF ab])
    then show "sameButIds st (greedyLoop w' quests wr s b)"
      using ab by (simp add: greedyLoop_stop)
  qed
next
  case (step st opt)
  show ?case
  proof (intro allI impI)
    fix b assume ab: "sameButIds st b"
    have "continues b" and "bestFor quests wr s b = Some opt"
      using step(1,2) by (simp_all add: sameButIds_continues [OF ab] sameButIds_bestFor [OF ab])
    then have "greedyLoop w' quests wr s b = greedyLoop w' quests wr s (advance w' b opt)"
      by (rule greedyLoop_step)
    then show "sameButIds (greedyLoop w quests wr s (advance w st opt))
                 (greedyLoop w' quests wr s b)"
      using step(3) sameButIds_advance [OF ab, of w opt w'] by simp
  qed
qed

lemma sumMinutes_anonymous: "sumMinutes (map anonymousStep xs) = sumMinutes xs"
  by (simp add: sumMinutes_sum_list anonymousStep_def comp_def)

lemma sumRewards_anonymous: "sumRewards (map anonymousStep xs) = sumRewards xs"
  by (simp add: sumRewards_sum_list anonymousStep_def comp_def)

lemma anonymousPlan_generateOptimizedPlan:
  "anonymousPlan (generateOptimizedPlan w quests tb wr s)
   = anonymousPlan (generateOptimizedPlan w' quests tb wr s)"
proof -
  let ?init = "\<lparr>ls_steps = [], ls_remainingTime = tb,
                ls_questProgress = initProgress quests, ls_completedQuests = []\<rparr>"
  have "sameButIds ?init ?init" by (simp add: sameButIds_def)
  then have same: "sameButIds (greedyLoop w quests wr s ?init) (greedyLoop w' quests wr s ?init)"
    using greedyLoop_sameButIds [of ?init w quests wr s w'] by blast
  then have st: "map anonymousStep (ls_steps (greedyLoop w quests wr s ?init))
                 = map anonymousStep (ls_steps (greedyLoop w' quests wr s ?init))"
    and cq: "ls_completedQuests (greedyLoop w quests wr s ?init)
             = ls_completedQuests (greedyLoop w' quests wr s ?init)"
    by (simp_all add: sameButIds_def)
  have "sumMinutes (ls_steps (greedyLoop w quests wr s ?init))
        = sumMinutes (ls_steps (greedyLoop w' quests wr s ?init))"
    using arg_cong [OF st, of sumMinutes] by (simp only: sumMinutes_anonymous)
  moreover have "sumRewards (ls_steps (greedyLoop w quests wr s ?init))
        = sumRewards (ls_steps (greedyLoop w' quests wr s ?init))"
    using arg_cong [OF st, of sumRewards] by (simp only: sumRewards_anonymous)
  ultimately show ?thesis
    using st cq by (simp add: anonymousPlan_def generateOptimizedPlan_def Let_def)
qed

lemma generateWarnings_anonymous:
  "generateWarnings a f (generateOptimizedPlan w quests tb wr s)
   = generateWarnings a f (generateOptimizedPlan w' quests tb wr s)"
proof -
  have "totalEstimatedMinutes (anonymousPlan (generateOptimizedPlan w quests tb wr s))
        = totalEstimatedMinutes (anonymousPlan (generateOptimizedPlan w' quests tb wr s))"
    by (simp only: anonymousPlan_generateOptimizedPlan [of w quests tb wr s w'])
  then have "totalEstimatedMinutes (generateOptimizedPlan w quests tb wr s)
        = totalEstimatedMinutes (generateOptimizedPlan w' quests tb wr s)"
    by (simp add: anonymousPlan_def)
  then show ?thesis
    by (simp add: generateWarnings_def generateOptimizedPlan_fields(4))
qed

text \<open>
  C8, amended. Two calls of \<open>optimizePlan\<close> with the same quests, time budget, win rate
  and settings return results that agree in everything except the generated
  identifiers (the plan's and the steps') and the two timestamps: success, error,
  warnings, the steps with their queues, games, minutes, rewards and quest progress,
  the totals and the completed quests are the same whatever \<open>uuidv4()\<close> and
  \<open>new Date()\<close> answer.
\<close>

theorem C8_same_result_up_to_ids_and_timestamps:
  "anonymousResult (optimizePlan isUuid w quests tb wr settings)
   = anonymousResult (optimizePlan isUuid w' quests tb wr settings)"
  using anonymousPlan_generateOptimizedPlan [of w _ tb wr _ w']
        generateWarnings_anonymous [of _ _ w _ tb wr _ w']
  by (simp add: optimizePlan_def anonymousResult_def Let_def)

theorem C8_same_result_witness:
  "anonymousResult (optimizePlan isUuid36 world1 [castQuest] 15 (1 / 2) (Some standardOnly))
   = \<lparr>success = True, plan = Some (anonymousPlan examplePlan), error = None,
      warnings = Some []\<rparr>"
  using C8_same_result_up_to_ids_and_timestamps
          [of isUuid36 world1 "[castQuest]" 15 "1 / 2" "Some standardOnly" world0]
  by (simp add: example_result anonymousResult_def)

section \<open>No active quests\<close>

lemma questIssues_empty: "questIssues isUuid i q = [] \<longleftrightarrow> questAccepted isUuid q"
  by (auto simp: questIssues_def questAccepted_def)

lemma questIssues_all_empty:
  assumes "length is = length qs"
  shows "concat (map (\<lambda>(i, q). questIssues isUuid i q) (zip is qs)) = []
         \<longleftrightarrow> list_all (questAccepted isUuid) qs"
  using assms by (induction "is" qs rule: list_induct2) (simp_all add: questIssues_empty)

lemma validateOptimizationInput_empty:
  "validateOptimizationInput isUuid quests tb wr settings = []
   \<longleftrightarrow> list_all (questAccepted isUuid) quests
       \<and> 15 \<le> tb \<and> tb \<le> 180 \<and> 3 / 10 \<le> wr \<and> wr \<le> 8 / 10
       \<and> settingsAccepted settings"
proof -
  have q: "concat (map (\<lambda>(i, q). questIssues isUuid i q) (zip [0 ..< length quests] quests)) = []
           \<longleftrightarrow> list_all (questAccepted isUuid) quests"
    by (rule questIssues_all_empty) simp
  have s: "(case settings of None \<Rightarrow> [] | Some s \<Rightarrow> settingsIssues s) = []
           \<longleftrightarrow> settingsAccepted settings"
    by (cases settings) (auto simp: settingsIssues_def settingsAccepted_def)
  show ?thesis
    unfolding validateOptimizationInput_def append_is_Nil_conv q s
    by (auto simp: not_less split: if_splits)
qed

text \<open>
  C9 as stated fails: validation comes first. A quest with \<open>remaining = 0\<close> whose id
  is not a UUID, with an in-range time budget and win rate, is answered with the
  validation error; so is the empty quest list when the settings passed along are out
  of range.
\<close>

theorem C9_validation_first_counterexample:
  "error (optimizePlan isUuid36 world0
            [castQuest\<lparr>quest_id := ''q1'', remaining := 0\<rparr>] 60 (1 / 2) None)
     = Some (ValidationFailed [QuestIdNotUuid 0])
   \<and> error (optimizePlan isUuid36 world0 [] 60 (1 / 2)
               (Some (standardOnly\<lparr>defaultWinRate := 9 / 10\<rparr>)))
     = Some (ValidationFailed [DefaultWinRateAboveMax])"
  by (simp add: optimizePlan_def validateOptimizationInput_def questIssues_def
        settingsIssues_def isUuid36_def standardOnly_def Let_def)

text \<open>
  C9, amended. For every quest list in which every quest has \<open>remaining = 0\<close>
  (the empty list included), \<open>optimizePlan\<close> returns a failure without a plan. When
  moreover the input passes validation (time budget in \<open>[15,180]\<close>, win rate in
  \<open>[0.3,0.8]\<close>, every quest id a UUID and every \<open>expiresInDays\<close> non-negative, settings
  absent or in range) the failure carries the no-active-quests error with the warning
  that all quests are already completed; otherwise it carries the validation error.
\<close>

theorem C9_no_active_quests:
  assumes "list_all (\<lambda>q. remaining q = 0) quests"
  shows "success (optimizePlan isUuid w quests tb wr settings) = False
       \<and> plan (optimizePlan isUuid w quests tb wr settings) = None
       \<and> (if list_all (questAccepted isUuid) quests
              \<and> 15 \<le> tb \<and> tb \<le> 180 \<and> 3 / 10 \<le> wr \<and> wr \<le> 8 / 10
              \<and> settingsAccepted settings
           then error (optimizePlan isUuid w quests tb wr settings) = Some NoActiveQuests
                \<and> warnings (optimizePlan isUuid w quests tb wr settings)
                    = Some [AllQuestsCompleted]
           else error (optimizePlan isUuid w quests tb wr settings)
                = Some (ValidationFailed
                          (validateOptimizationInput isUuid quests tb wr settings)))"
proof -
  have none: "filter (\<lambda>quest. remaining quest > 0) quests = []"
    using assms by (induction quests) auto
  show ?thesis
    using validateOptimizationInput_empty [of isUuid quests tb wr settings]
    by (auto simp: optimizePlan_def Let_def none)
qed

theorem C9_no_active_quests_witness:
  "list_all (\<lambda>q. remaining q = 0) [castQuest\<lparr>remaining := 0\<rparr>]
   \<and> optimizePlan isUuid36 world0 [castQuest\<lparr>remaining := 0\<rparr>] 60 (1 / 2) None
       = \<lparr>success = False, plan = None, error = Some NoActiveQuests,
          warnings = Some [AllQuestsCompleted]\<rparr>
   \<and> error (optimizePlan isUuid36 world0 [] 60 (1 / 2) None) = Some NoActiveQuests"
proof -
  let ?q = "castQuest\<lparr>remaining := 0\<rparr>"
  let ?r = "optimizePlan isUuid36 world0 [?q] 60 (1 / 2) None"
  have h: "list_all (\<lambda>q. remaining q = 0) [?q]" by simp
  have ok: "list_all (questAccepted isUuid36) [?q] \<and> settingsAccepted None"
    by (simp add: questAccepted_def isUuid36_def settingsAccepted_def)
  have "success ?r = False \<and> plan ?r = None \<and> error ?r = Some NoActiveQuests
        \<and> warnings ?r = Some [AllQuestsCompleted]"
    using C9_no_active_quests [OF h, of isUuid36 world0 60 "1 / 2" None] ok by simp
  then have r: "?r = \<lparr>success = False, plan = None, error = Some NoActiveQuests,
                      warnings = Some [AllQuestsCompleted]\<rparr>"
    by (cases ?r) simp
  have e: "error (optimizePlan isUuid36 world0 [] 60 (1 / 2) None) = Some NoActiveQuests"
    using C9_no_active_quests [of "[]" isUuid36 world0 60 "1 / 2" None]
    by (simp add: settingsAccepted_def)
  show ?thesis using h r e by simp
qed

section \<open>Monotonicity in double precision\<close>

subsection \<open>Rounding to the nearest double\<close>

lemma rne_error: "\<bar>of_int (rne y) - y\<bar> \<le> 1 / 2"
proof -
  have "of_int \<lfloor>y\<rfloor> \<le> y" and "y < of_int \<lfloor>y\<rfloor> + 1" by linarith+
  then show ?thesis by (auto simp: rne_def Let_def)
qed

lemma fl_zero [simp]: "fl 0 = 0"
  by (simp add: fl_def rne_def)

lemma fl_scaled_error: "\<bar>fl x - x\<bar> \<le> 2 powi ulpExponent x / 2"
proof -
  define s :: real where "s = 2 powi ulpExponent x"
  have s: "0 < s" by (simp add: s_def)
  have "fl x - x = (of_int (rne (x / s)) - x / s) * s"
    using s by (simp add: fl_def s_def field_simps)
  then have "\<bar>fl x - x\<bar> = \<bar>of_int (rne (x / s)) - x / s\<bar> * s"
    using s by (simp add: abs_mult)
  also have "\<dots> \<le> 1 / 2 * s"
    using rne_error [of "x / s"] s by (intro mult_right_mono) simp_all
  finally show ?thesis by (simp add: s_def)
qed

lemma fl_error: "\<bar>fl x - x\<bar> \<le> \<bar>x\<bar> / 2 ^ 53 + 1 / 2 ^ 1075"
proof (cases "x = 0")
  case True
  then show ?thesis by simp
next
  case False
  then have ax: "0 < \<bar>x\<bar>" by simp
  show ?thesis
  proof (cases "\<lfloor>log 2 \<bar>x\<bar>\<rfloor> - 52 \<le> - 1074")
    case True
    then have "ulpExponent x = - 1074" by (simp add: ulpExponent_def)
    then have "\<bar>fl x - x\<bar> \<le> 2 powi (- 1074) / 2"
      using fl_scaled_error [of x] by simp
    also have "(2::real) powi (- 1074) / 2 = 1 / 2 ^ 1075"
      by (simp add: power_int_minus field_simps)
    finally have "\<bar>fl x - x\<bar> \<le> 1 / 2 ^ 1075" .
    moreover have "0 \<le> \<bar>x\<bar> / 2 ^ 53" by simp
    ultimately show ?thesis by linarith
  next
    case False
    define k where "k = \<lfloor>log 2 \<bar>x\<bar>\<rfloor>"
    have e: "ulpExponent x = k - 52" using False by (simp add: ulpExponent_def k_def)
    have "of_int k \<le> log 2 \<bar>x\<bar>" by (simp add: k_def)
    then have "2 powr of_int k \<le> 2 powr log 2 \<bar>x\<bar>" by simp
    then have "2 powr of_int k \<le> \<bar>x\<bar>" using ax by simp
    then have k: "(2::real) powi k \<le> \<bar>x\<bar>" by (simp add: powr_real_of_int')
    have "(2::real) powi (k - 52) = 2 powi k / 2 ^ 52"
      by (simp add: power_int_diff)
    then have "(2::real) powi (k - 52) / 2 \<le> \<bar>x\<bar> / 2 ^ 53"
      using k by (simp add: field_simps)
    then have "\<bar>fl x - x\<bar> \<le> \<bar>x\<bar> / 2 ^ 53"
      using fl_scaled_error [of x] e by simp
    moreover have "(0::real) \<le> 1 / 2 ^ 1075" by simp
    ultimately show ?thesis by linarith
  qed
qed

lemma fl_near:
  assumes "\<bar>x\<bar> \<le> B" and "1 \<le> B"
  shows "\<bar>fl x - x\<bar> \<le> B / 2 ^ 52"
proof -
  have "\<bar>x\<bar> / 2 ^ 53 \<le> B / 2 ^ 53" using assms(1) by (simp add: divide_right_mono)
  moreover have "(1::real) / 2 ^ 1075 \<le> 1 / 2 ^ 53"
    by (intro divide_left_mono power_increasing) simp_all
  moreover have "(1::real) / 2 ^ 53 \<le> B / 2 ^ 53" using assms(2) by (simp add: divide_right_mono)
  moreover have "B / 2 ^ 53 + B / 2 ^ 53 = B / 2 ^ 52" by simp
  ultimately show ?thesis using fl_error [of x] by linarith
qed

lemma powr_powi: "(2::real) powr of_int n = 2 powi n"
  by (simp add: powr_real_of_int')

lemma fl_eval:
  assumes "0 < x" and "- 1074 \<le> e"
    and "2 ^ 52 * 2 powi e \<le> x \<or> e = - 1074" and "x < 2 ^ 53 * 2 powi e"
    and "rne (x / 2 powi e) = m"
  shows "fl x = of_int m * 2 powi e"
proof -
  have "(2::real) powr of_int (e + 52 + 1) = 2 powi (e + 52 + 1)" by (rule powr_powi)
  also have "\<dots> = 2 ^ 53 * 2 powi e" by (simp add: power_int_add)
  finally have hieq: "(2::real) powr of_int (e + 52 + 1) = 2 ^ 53 * 2 powi e" .
  have hi: "x < 2 powr of_int (e + 52 + 1)" unfolding hieq using assms(4) .
  have "ulpExponent x = e"
  proof (cases "2 ^ 52 * 2 powi e \<le> x")
    case True
    have "(2::real) powr of_int (e + 52) = 2 powi (e + 52)" by (rule powr_powi)
    also have "\<dots> = 2 ^ 52 * 2 powi e" by (simp add: power_int_add)
    finally have loeq: "(2::real) powr of_int (e + 52) = 2 ^ 52 * 2 powi e" .
    have lo: "2 powr of_int (e + 52) \<le> x" unfolding loeq using True .
    have "\<lfloor>log 2 x\<rfloor> = e + 52"
      using lo hi assms(1) by (subst floor_log_eq_powr_iff) auto
    then show ?thesis using assms(1,2) by (simp add: ulpExponent_def)
  next
    case False
    then have e: "e = - 1074" using assms(3) by simp
    have "log 2 x < of_int (e + 52 + 1)"
      using hi assms(1) by (subst log_less_iff) auto
    then have "\<lfloor>log 2 x\<rfloor> < e + 52 + 1" by (subst floor_less_iff)
    then have "\<lfloor>log 2 x\<rfloor> - 52 \<le> - 1074" using e by linarith
    then have "max (\<lfloor>log 2 x\<rfloor> - 52) (- 1074) = - 1074" by (rule max_absorb2)
    then show ?thesis using assms(1) e by (simp only: ulpExponent_def abs_of_pos)
  qed
  then show ?thesis using assms(5) by (simp add: fl_def)
qed

subsection \<open>The error of one operation\<close>

lemma mult_near:
  fixes a A b B ea eb MA MB :: real
  assumes "\<bar>a - A\<bar> \<le> ea" and "\<bar>b - B\<bar> \<le> eb" and "\<bar>A\<bar> \<le> MA" and "\<bar>B\<bar> \<le> MB"
  shows "\<bar>a * b - A * B\<bar> \<le> ea * (MB + eb) + MA * eb"
proof -
  have ea: "0 \<le> ea" and eb: "0 \<le> eb" and MA: "0 \<le> MA" using assms by linarith+
  have b: "\<bar>b\<bar> \<le> MB + eb" using assms(2,4) by linarith
  have "a * b - A * B = (a - A) * b + A * (b - B)" by (simp add: algebra_simps)
  then have "\<bar>a * b - A * B\<bar> \<le> \<bar>a - A\<bar> * \<bar>b\<bar> + \<bar>A\<bar> * \<bar>b - B\<bar>"
    by (metis abs_mult abs_triangle_ineq)
  also have "\<dots> \<le> ea * (MB + eb) + MA * eb"
    using assms(1,2,3) b ea eb MA by (intro add_mono mult_mono) simp_all
  finally show ?thesis .
qed

lemma dmul_near:
  assumes "\<bar>a - A\<bar> \<le> ea" and "\<bar>b - B\<bar> \<le> eb" and "\<bar>A\<bar> \<le> MA" and "\<bar>B\<bar> \<le> MB"
    and "ea * (MB + eb) + MA * eb \<le> e0" and "MA * MB + e0 \<le> Bd" and "1 \<le> Bd"
  shows "\<bar>dmul a b - A * B\<bar> \<le> e0 + Bd / 2 ^ 52"
proof -
  have e: "\<bar>a * b - A * B\<bar> \<le> e0" using mult_near [OF assms(1-4)] assms(5) by linarith
  have "\<bar>A * B\<bar> \<le> MA * MB"
    using assms(3,4) by (simp add: abs_mult mult_mono)
  then have "\<bar>a * b\<bar> \<le> Bd" using e assms(6) by linarith
  then have "\<bar>fl (a * b) - a * b\<bar> \<le> Bd / 2 ^ 52" using assms(7) by (rule fl_near)
  then show ?thesis using e unfolding dmul_def by linarith
qed

lemma dadd_near:
  assumes "\<bar>a - A\<bar> \<le> ea" and "\<bar>b - B\<bar> \<le> eb"
    and "\<bar>A + B\<bar> + ea + eb \<le> Bd" and "1 \<le> Bd"
  shows "\<bar>dadd a b - (A + B)\<bar> \<le> ea + eb + Bd / 2 ^ 52"
proof -
  have e: "\<bar>(a + b) - (A + B)\<bar> \<le> ea + eb" using assms(1,2) by linarith
  then have "\<bar>a + b\<bar> \<le> Bd" using assms(3) by linarith
  then have "\<bar>fl (a + b) - (a + b)\<bar> \<le> Bd / 2 ^ 52" using assms(4) by (rule fl_near)
  then show ?thesis using e unfolding dadd_def by linarith
qed

lemma dsub_near:
  assumes "\<bar>a - A\<bar> \<le> ea" and "\<bar>b - B\<bar> \<le> eb"
    and "\<bar>A - B\<bar> + ea + eb \<le> Bd" and "1 \<le> Bd"
  shows "\<bar>dsub a b - (A - B)\<bar> \<le> ea + eb + Bd / 2 ^ 52"
proof -
  have e: "\<bar>(a - b) - (A - B)\<bar> \<le> ea + eb" using assms(1,2) by linarith
  then have "\<bar>a - b\<bar> \<le> Bd" using assms(3) by linarith
  then have "\<bar>fl (a - b) - (a - b)\<bar> \<le> Bd / 2 ^ 52" using assms(4) by (rule fl_near)
  then show ?thesis using e unfolding dsub_def by linarith
qed

lemma ddiv_near:
  assumes "\<bar>a - A\<bar> \<le> ea" and "1 \<le> L" and "\<bar>A\<bar> + ea \<le> Bd" and "1 \<le> Bd"
  shows "\<bar>ddiv a L - A / L\<bar> \<le> ea + Bd / 2 ^ 52"
proof -
  have L: "0 < L" using assms(2) by simp
  have "a / L - A / L = (a - A) / L" by (simp add: diff_divide_distrib)
  then have "\<bar>a / L - A / L\<bar> = \<bar>a - A\<bar> / L" using L by simp
  also have "\<dots> \<le> \<bar>a - A\<bar> / 1"
    using assms(2) by (intro divide_left_mono) simp_all
  finally have e: "\<bar>a / L - A / L\<bar> \<le> ea" using assms(1) by simp
  have "\<bar>A / L\<bar> = \<bar>A\<bar> / L" using L by simp
  also have "\<dots> \<le> \<bar>A\<bar> / 1" using assms(2) by (intro divide_left_mono) simp_all
  finally have "\<bar>A / L\<bar> \<le> \<bar>A\<bar>" by simp
  then have "\<bar>a / L\<bar> \<le> Bd" using e assms(3) by linarith
  then have "\<bar>fl (a / L) - a / L\<bar> \<le> Bd / 2 ^ 52" using assms(4) by (rule fl_near)
  then show ?thesis using e unfolding ddiv_def by linarith
qed

text \<open>The probability of one outcome, exact and as computed.\<close>

lemma probability_near:
  assumes w: "0 \<le> w" "w \<le> 1" and pw: "\<bar>pk - w ^ k\<bar> \<le> 1 / 2 ^ 50"
  shows "\<bar>dsub 1 w - (1 - w)\<bar> \<le> 1 / 2 ^ 48"
    and "\<bar>pk - w ^ k\<bar> \<le> 1 / 2 ^ 48"
    and "\<bar>dmul pk (dsub 1 w) - w ^ k * (1 - w)\<bar> \<le> 1 / 2 ^ 48"
proof -
  have om: "\<bar>dsub 1 w - (1 - w)\<bar> \<le> 1 / 2 ^ 52"
    using dsub_near [of 1 1 0 w w 0 1] w by simp
  then show "\<bar>dsub 1 w - (1 - w)\<bar> \<le> 1 / 2 ^ 48" by simp
  show "\<bar>pk - w ^ k\<bar> \<le> 1 / 2 ^ 48" using pw by simp
  have wk: "\<bar>w ^ k\<bar> \<le> 1" using w by (simp add: power_le_one)
  have ow: "\<bar>1 - w\<bar> \<le> 1" using w by simp
  have "\<bar>dmul pk (dsub 1 w) - w ^ k * (1 - w)\<bar> \<le> 1 / 2 ^ 49 + 2 / 2 ^ 52"
    by (rule dmul_near [OF pw om wk ow]) simp_all
  then show "\<bar>dmul pk (dsub 1 w) - w ^ k * (1 - w)\<bar> \<le> 1 / 2 ^ 48" by simp
qed

lemma term_near:
  assumes p: "\<bar>ph - p\<bar> \<le> 1 / 2 ^ 48" "0 \<le> p" "p \<le> 1" and r: "0 \<le> r" "r \<le> M" and M: "1 \<le> M"
  shows "\<bar>dmul ph r - p * r\<bar> \<le> M / 2 ^ 47"
proof -
  have pa: "\<bar>p\<bar> \<le> 1" using p(2,3) by simp
  have ra: "\<bar>r\<bar> \<le> M" using r by simp
  have r0: "\<bar>r - r\<bar> \<le> 0" by simp
  have "\<bar>dmul ph r - p * r\<bar> \<le> M / 2 ^ 48 + (2 * M) / 2 ^ 52"
    by (rule dmul_near [OF p(1) r0 pa ra]) (use M in simp_all)
  then show ?thesis using M by simp
qed

lemma accumulate_near:
  assumes a: "\<bar>ah - a\<bar> \<le> c / 2 ^ 46" "0 \<le> a" "a \<le> c" and c: "0 \<le> c" "c \<le> 7 * M"
    and t: "\<bar>th - t\<bar> \<le> M / 2 ^ 47" "0 \<le> t" "t \<le> M" and M: "1 \<le> M"
  shows "\<bar>dadd ah th - (a + t)\<bar> \<le> (c + M) / 2 ^ 46"
proof -
  have "\<bar>dadd ah th - (a + t)\<bar> \<le> c / 2 ^ 46 + M / 2 ^ 47 + (9 * M) / 2 ^ 52"
    by (rule dadd_near [OF a(1) t(1)]) (use a c t M in simp_all)
  then show ?thesis using M by (simp add: add_divide_distrib)
qed

text \<open>The exact probability of stopping at \<open>wins\<close>, as the loop of
  \<open>calculateExpectedReward\<close> chooses it.\<close>

lemma probability_range:
  fixes w :: real
  assumes "0 \<le> w" and "w \<le> 1"
  shows "0 \<le> (if k = 0 then 1 - w else if k = n then w ^ k else w ^ k * (1 - w))"
    and "(if k = 0 then 1 - w else if k = n then w ^ k else w ^ k * (1 - w)) \<le> 1"
  using assms by (auto simp: power_le_one mult_le_one)

lemma loop_near:
  assumes w: "0 \<le> w" "w \<le> 1" and pw: "powAccurate Math_pow"
    and R: "list_all (\<lambda>r. 0 \<le> r \<and> r \<le> M) R" "length R \<le> 8" and M: "1 \<le> M"
    and m: "m \<le> length R"
  defines "Fd \<equiv> (\<lambda>wins expectedReward.
                   let probability =
                         (if wins = 0 then dsub 1 w
                          else if wins = length R - 1 then Math_pow w wins
                          else dmul (Math_pow w wins) (dsub 1 w))
                   in dadd expectedReward (dmul probability (R ! wins)))"
    and "Fr \<equiv> (\<lambda>wins expectedReward.
                   let probability =
                         (if wins = 0 then 1 - w
                          else if wins = length R - 1 then w ^ wins
                          else w ^ wins * (1 - w))
                   in expectedReward + probability * R ! wins)"
  shows "\<bar>fold Fd [0 ..< m] 0 - fold Fr [0 ..< m] 0\<bar> \<le> (real m * M) / 2 ^ 46
       \<and> 0 \<le> fold Fr [0 ..< m] 0 \<and> fold Fr [0 ..< m] 0 \<le> real m * M"
  using m
proof (induction m)
  case 0
  show ?case by simp
next
  case (Suc m)
  then have IH: "\<bar>fold Fd [0 ..< m] 0 - fold Fr [0 ..< m] 0\<bar> \<le> (real m * M) / 2 ^ 46"
      "0 \<le> fold Fr [0 ..< m] 0" "fold Fr [0 ..< m] 0 \<le> real m * M"
    and mlt: "m < length R"
    by simp_all
  define p where "p = (if m = 0 then 1 - w else if m = length R - 1 then w ^ m else w ^ m * (1 - w))"
  define ph where "ph = (if m = 0 then dsub 1 w else if m = length R - 1 then Math_pow w m
                         else dmul (Math_pow w m) (dsub 1 w))"
  have m7: "m \<le> 7" using mlt R(2) by simp
  have pk: "\<bar>Math_pow w m - w ^ m\<bar> \<le> 1 / 2 ^ 50"
    using pw w m7 by (simp add: powAccurate_def)
  have pn: "\<bar>ph - p\<bar> \<le> 1 / 2 ^ 48"
  proof (cases "m = 0")
    case True
    then have "ph = dsub 1 w" and "p = 1 - w" by (simp_all add: ph_def p_def)
    then show ?thesis using probability_near(1) [OF w pk] by (simp only:)
  next
    case False
    show ?thesis
    proof (cases "m = length R - 1")
      case True
      then have "ph = Math_pow w m" and "p = w ^ m" using False by (simp_all add: ph_def p_def)
      then show ?thesis using probability_near(2) [OF w pk] by (simp only:)
    next
      case last: False
      then have "ph = dmul (Math_pow w m) (dsub 1 w)" and "p = w ^ m * (1 - w)"
        using False by (simp_all add: ph_def p_def)
      then show ?thesis using probability_near(3) [OF w pk] by (simp only:)
    qed
  qed
  have p01: "0 \<le> p" "p \<le> 1"
    unfolding p_def using probability_range [OF w, of m "length R - 1"] by simp_all
  have r: "0 \<le> R ! m" "R ! m \<le> M"
    using R(1) mlt by (simp_all add: list_all_length)
  have tn: "\<bar>dmul ph (R ! m) - p * R ! m\<bar> \<le> M / 2 ^ 47"
    by (rule term_near [OF pn p01 r M])
  have t0: "0 \<le> p * R ! m" using p01(1) r(1) by simp
  have "p * R ! m \<le> 1 * M" using p01 r by (intro mult_mono) simp_all
  then have tM: "p * R ! m \<le> M" by simp
  have c0: "0 \<le> real m * M" using M by simp
  have "real m * M \<le> 7 * M" using m7 M by (intro mult_right_mono) simp_all
  then have c7: "real m * M \<le> 7 * M" .
  have step: "\<bar>dadd (fold Fd [0 ..< m] 0) (dmul ph (R ! m)) - (fold Fr [0 ..< m] 0 + p * R ! m)\<bar>
              \<le> (real m * M + M) / 2 ^ 46"
    by (rule accumulate_near [OF IH c0 c7 tn t0 tM M])
  have Sd: "fold Fd [0 ..< Suc m] 0 = dadd (fold Fd [0 ..< m] 0) (dmul ph (R ! m))"
    by (simp add: Fd_def ph_def Let_def)
  have Sr: "fold Fr [0 ..< Suc m] 0 = fold Fr [0 ..< m] 0 + p * R ! m"
    by (simp add: Fr_def p_def Let_def)
  have cm: "real (Suc m) * M = real m * M + M" by (simp add: algebra_simps)
  show ?case
    unfolding Sd Sr cm using step IH(2,3) t0 tM by simp
qed

lemma calculateExpectedReward_double_near:
  assumes w: "0 \<le> w" "w \<le> 1" and pw: "powAccurate Math_pow"
    and R: "list_all (\<lambda>r. 0 \<le> r \<and> r \<le> M) R" "length R \<le> 8" and M: "1 \<le> M"
  shows "\<bar>calculateExpectedReward_double Math_pow R w - calculateExpectedReward R w\<bar>
         \<le> M / 2 ^ 43"
    and "0 \<le> calculateExpectedReward R w" and "calculateExpectedReward R w \<le> 8 * M"
proof -
  have M0: "0 \<le> M / 2 ^ 43" "0 \<le> 8 * M" "M \<le> 8 * M" using M by simp_all
  have all: "\<bar>calculateExpectedReward_double Math_pow R w - calculateExpectedReward R w\<bar>
               \<le> M / 2 ^ 43
             \<and> 0 \<le> calculateExpectedReward R w \<and> calculateExpectedReward R w \<le> 8 * M"
  proof (cases "length R = 0 \<or> w = 0 \<or> w = 1")
    case True
    have "i < length R \<Longrightarrow> 0 \<le> R ! i \<and> R ! i \<le> 8 * M" for i
      using R(1) M0(3) by (auto simp: list_all_length intro: order_trans)
    then show ?thesis
      using True M0
      by (auto simp: calculateExpectedReward_double_def calculateExpectedReward_def)
  next
    case False
    have l: "\<bar>fold (\<lambda>wins expectedReward.
                   let probability =
                         (if wins = 0 then dsub 1 w
                          else if wins = length R - 1 then Math_pow w wins
                          else dmul (Math_pow w wins) (dsub 1 w))
                   in dadd expectedReward (dmul probability (R ! wins))) [0 ..< length R] 0
             - fold (\<lambda>wins expectedReward.
                   let probability =
                         (if wins = 0 then 1 - w
                          else if wins = length R - 1 then w ^ wins
                          else w ^ wins * (1 - w))
                   in expectedReward + probability * R ! wins) [0 ..< length R] 0\<bar>
              \<le> (real (length R) * M) / 2 ^ 46
           \<and> 0 \<le> fold (\<lambda>wins expectedReward.
                   let probability =
                         (if wins = 0 then 1 - w
                          else if wins = length R - 1 then w ^ wins
                          else w ^ wins * (1 - w))
                   in expectedReward + probability * R ! wins) [0 ..< length R] 0
           \<and> fold (\<lambda>wins expectedReward.
                   let probability =
                         (if wins = 0 then 1 - w
                          else if wins = length R - 1 then w ^ wins
                          else w ^ wins * (1 - w))
                   in expectedReward + probability * R ! wins) [0 ..< length R] 0
              \<le> real (length R) * M"
      by (rule loop_near [OF w pw R M]) simp
    have "real (length R) * M \<le> 8 * M" using R(2) M by (intro mult_right_mono) simp_all
    then have "(real (length R) * M) / 2 ^ 46 \<le> (8 * M) / 2 ^ 46"
      by (intro divide_right_mono) simp_all
    moreover have "(8 * M) / 2 ^ 46 = M / 2 ^ 43" by simp
    ultimately have b: "(real (length R) * M) / 2 ^ 46 \<le> M / 2 ^ 43"
      and c: "real (length R) * M \<le> 8 * M"
      using \<open>real (length R) * M \<le> 8 * M\<close> by simp_all
    show ?thesis
      using False l b c
      by (simp add: calculateExpectedReward_double_def calculateExpectedReward_def)
  qed
  from all show "\<bar>calculateExpectedReward_double Math_pow R w - calculateExpectedReward R w\<bar>
         \<le> M / 2 ^ 43"
    and "0 \<le> calculateExpectedReward R w" and "calculateExpectedReward R w \<le> 8 * M"
    by simp_all
qed

subsection \<open>The error of \<open>calculateQueueEV\<close>\<close>

lemma rewards_bounds:
  "list_all (\<lambda>r. 0 \<le> r \<and> r \<le> 6000) (winRewards (QUEUE_REWARDS q))"
  "length (winRewards (QUEUE_REWARDS q)) \<le> 8"
  "0 \<le> entryFee (QUEUE_REWARDS q)" "entryFee (QUEUE_REWARDS q) \<le> 10000"
  by (cases q; simp add: bo1Gold_def)+

lemma gemRewards_bounds:
  "gemRewards (QUEUE_REWARDS q) = Some g
   \<Longrightarrow> list_all (\<lambda>r. 0 \<le> r \<and> r \<le> 3000) g \<and> length g \<le> 8"
  by (cases q) auto

lemma packRewards_bounds:
  "packRewards (QUEUE_REWARDS q) = Some p
   \<Longrightarrow> list_all (\<lambda>r. 0 \<le> r \<and> r \<le> 6) p \<and> length p \<le> 8"
  by (cases q) (auto simp: draftPacks_def)

lemma correctlyRoundedPow_accurate: "powAccurate correctlyRoundedPow"
  unfolding powAccurate_def
proof (intro allI impI)
  fix w :: real and k :: nat
  assume "0 \<le> w \<and> w \<le> 1 \<and> k \<le> 7"
  then have "\<bar>w ^ k\<bar> \<le> 1" by (simp add: power_le_one)
  then have "\<bar>fl (w ^ k) - w ^ k\<bar> \<le> 1 / 2 ^ 52" by (rule fl_near) simp
  then show "\<bar>correctlyRoundedPow w k - w ^ k\<bar> \<le> 1 / 2 ^ 50"
    by (simp add: correctlyRoundedPow_def)
qed

lemma calculateQueueEV_double_near:
  assumes w: "0 \<le> w" "w \<le> 1" and pw: "powAccurate Math_pow"
  shows "\<bar>expectedGold (calculateQueueEV_double Math_pow q w) - expectedGold (calculateQueueEV q w)\<bar>
         \<le> 1 / 2 ^ 28"
    and "\<bar>expectedGems (calculateQueueEV_double Math_pow q w) - expectedGems (calculateQueueEV q w)\<bar>
         \<le> 1 / 2 ^ 28"
    and "\<bar>expectedPacks (calculateQueueEV_double Math_pow q w) - expectedPacks (calculateQueueEV q w)\<bar>
         \<le> 1 / 2 ^ 28"
    and "\<bar>expectedValue (calculateQueueEV_double Math_pow q w) - expectedValue (calculateQueueEV q w)\<bar>
         \<le> 1 / 2 ^ 28"
    and "\<bar>netValue (calculateQueueEV_double Math_pow q w) - netValue (calculateQueueEV q w)\<bar>
         \<le> 1 / 2 ^ 28"
    and "\<bar>evPerMinute (calculateQueueEV_double Math_pow q w) - evPerMinute (calculateQueueEV q w)\<bar>
         \<le> 1 / 2 ^ 28"
proof -
  let ?r = "QUEUE_REWARDS q"
  define g where "g = calculateExpectedReward (winRewards ?r) w"
  define G where "G = calculateExpectedReward_double Math_pow (winRewards ?r) w"
  define m where "m = (case gemRewards ?r of Some x \<Rightarrow> calculateExpectedReward x w | None \<Rightarrow> 0)"
  define Mm where "Mm = (case gemRewards ?r of
                           Some x \<Rightarrow> calculateExpectedReward_double Math_pow x w | None \<Rightarrow> 0)"
  define p where "p = (case packRewards ?r of Some x \<Rightarrow> calculateExpectedReward x w | None \<Rightarrow> 0)"
  define P where "P = (case packRewards ?r of
                         Some x \<Rightarrow> calculateExpectedReward_double Math_pow x w | None \<Rightarrow> 0)"
  define fee where "fee = entryFee ?r"
  define L where "L = averageGameLength ?r"
  have gold: "\<bar>G - g\<bar> \<le> 6000 / 2 ^ 43" "0 \<le> g" "g \<le> 48000"
    unfolding G_def g_def
    using calculateExpectedReward_double_near [OF w pw rewards_bounds(1,2), of q] by simp_all
  have gems: "\<bar>Mm - m\<bar> \<le> 3000 / 2 ^ 43 \<and> 0 \<le> m \<and> m \<le> 24000"
  proof (cases "gemRewards ?r")
    case None
    then show ?thesis by (simp add: Mm_def m_def)
  next
    case (Some x)
    then show ?thesis
      unfolding Mm_def m_def
      using calculateExpectedReward_double_near [OF w pw, of 3000 x] gemRewards_bounds [OF Some]
      by simp
  qed
  have packs: "\<bar>P - p\<bar> \<le> 6 / 2 ^ 43 \<and> 0 \<le> p \<and> p \<le> 48"
  proof (cases "packRewards ?r")
    case None
    then show ?thesis by (simp add: P_def p_def)
  next
    case (Some x)
    then show ?thesis
      unfolding P_def p_def
      using calculateExpectedReward_double_near [OF w pw, of 6 x] packRewards_bounds [OF Some]
      by simp
  qed
  have fee: "0 \<le> fee" "fee \<le> 10000" unfolding fee_def by (rule rewards_bounds)+
  have L: "1 \<le> L" unfolding L_def using averageGameLength_ge7 [of q] by simp
  have five: "\<bar>(5::real) - 5\<bar> \<le> 0" "\<bar>5::real\<bar> \<le> 5"
    and thousand: "\<bar>(1000::real) - 1000\<bar> \<le> 0" "\<bar>1000::real\<bar> \<le> 1000"
    and fee0: "\<bar>fee - fee\<bar> \<le> 0"
    by simp_all
  have ma: "\<bar>m\<bar> \<le> 24000" and pa: "\<bar>p\<bar> \<le> 48" using gems packs by simp_all
  have a: "\<bar>dmul Mm 5 - m * 5\<bar> \<le> 15000 / 2 ^ 43 + 120001 / 2 ^ 52"
    by (rule dmul_near [OF conjunct1 [OF gems] five(1) ma five(2)]) simp_all
  have b: "\<bar>dadd G (dmul Mm 5) - (g + m * 5)\<bar>
           \<le> 6000 / 2 ^ 43 + (15000 / 2 ^ 43 + 120001 / 2 ^ 52) + 168001 / 2 ^ 52"
    by (rule dadd_near [OF gold(1) a]) (use gold gems in simp_all)
  have c: "\<bar>dmul P 1000 - p * 1000\<bar> \<le> 6000 / 2 ^ 43 + 48001 / 2 ^ 52"
    by (rule dmul_near [OF conjunct1 [OF packs] thousand(1) pa thousand(2)]) simp_all
  have d: "\<bar>dadd (dadd G (dmul Mm 5)) (dmul P 1000) - (g + m * 5 + p * 1000)\<bar>
           \<le> (6000 / 2 ^ 43 + (15000 / 2 ^ 43 + 120001 / 2 ^ 52) + 168001 / 2 ^ 52)
             + (6000 / 2 ^ 43 + 48001 / 2 ^ 52) + 216001 / 2 ^ 52"
    by (rule dadd_near [OF b c]) (use gold gems packs in simp_all)
  then have d': "\<bar>dadd (dadd G (dmul Mm 5)) (dmul P 1000) - (g + m * 5 + p * 1000)\<bar>
                 \<le> 14376004 / 2 ^ 52"
    by simp
  have tot: "\<bar>g + m * 5 + p * 1000 - fee\<bar> + 14376004 / 2 ^ 52 + 0 \<le> 216001"
    "\<bar>g + m * 5 + p * 1000 - fee\<bar> + 14592005 / 2 ^ 52 \<le> 216001"
    using gold gems packs fee by (auto simp: abs_le_iff)
  have n: "\<bar>dsub (dadd (dadd G (dmul Mm 5)) (dmul P 1000)) fee - (g + m * 5 + p * 1000 - fee)\<bar>
           \<le> 14376004 / 2 ^ 52 + 0 + 216001 / 2 ^ 52"
    by (rule dsub_near [OF d' fee0 tot(1)]) simp
  then have n': "\<bar>dsub (dadd (dadd G (dmul Mm 5)) (dmul P 1000)) fee
                   - (g + m * 5 + p * 1000 - fee)\<bar> \<le> 14592005 / 2 ^ 52"
    by simp
  have e: "\<bar>ddiv (dsub (dadd (dadd G (dmul Mm 5)) (dmul P 1000)) fee) L
             - (g + m * 5 + p * 1000 - fee) / L\<bar>
           \<le> 14592005 / 2 ^ 52 + 216001 / 2 ^ 52"
    by (rule ddiv_near [OF n' L tot(2)]) simp
  have D: "calculateQueueEV_double Math_pow q w
           = \<lparr>expectedValue = dadd (dadd G (dmul Mm 5)) (dmul P 1000), expectedGold = G,
              expectedGems = Mm, expectedPacks = P, entryCost = fee,
              netValue = dsub (dadd (dadd G (dmul Mm 5)) (dmul P 1000)) fee,
              evPerMinute = ddiv (dsub (dadd (dadd G (dmul Mm 5)) (dmul P 1000)) fee) L\<rparr>"
    by (simp add: calculateQueueEV_double_def Let_def G_def Mm_def P_def fee_def L_def)
  have E: "calculateQueueEV q w
           = \<lparr>expectedValue = g + m * 5 + p * 1000, expectedGold = g,
              expectedGems = m, expectedPacks = p, entryCost = fee,
              netValue = g + m * 5 + p * 1000 - fee,
              evPerMinute = (g + m * 5 + p * 1000 - fee) / L\<rparr>"
    by (simp add: calculateQueueEV_def Let_def g_def m_def p_def fee_def L_def)
  show "\<bar>expectedGold (calculateQueueEV_double Math_pow q w) - expectedGold (calculateQueueEV q w)\<bar>
         \<le> 1 / 2 ^ 28"
    unfolding D E using gold(1) by simp
  show "\<bar>expectedGems (calculateQueueEV_double Math_pow q w) - expectedGems (calculateQueueEV q w)\<bar>
         \<le> 1 / 2 ^ 28"
    unfolding D E using gems by simp
  show "\<bar>expectedPacks (calculateQueueEV_double Math_pow q w) - expectedPacks (calculateQueueEV q w)\<bar>
         \<le> 1 / 2 ^ 28"
    unfolding D E using packs by simp
  show "\<bar>expectedValue (calculateQueueEV_double Math_pow q w) - expectedValue (calculateQueueEV q w)\<bar>
         \<le> 1 / 2 ^ 28"
    unfolding D E using d' by simp
  show "\<bar>netValue (calculateQueueEV_double Math_pow q w) - netValue (calculateQueueEV q w)\<bar>
         \<le> 1 / 2 ^ 28"
    unfolding D E using n' by simp
  show "\<bar>evPerMinute (calculateQueueEV_double Math_pow q w) - evPerMinute (calculateQueueEV q w)\<bar>
         \<le> 1 / 2 ^ 28"
    unfolding D E using e by simp
qed

subsection \<open>Expected gold at two adjacent win rates\<close>

text \<open>The loop of \<open>calculateExpectedReward\<close> for Standard best-of-three (rewards
  0, 100, 200, 300) at \<open>rateA\<close> and at \<open>rateB\<close>, one operation at a time.\<close>

lemma rateA_loss: "dsub 1 rateA = 6944550625405305 / 9007199254740992"
  unfolding dsub_def
  by (rule trans [OF fl_eval [where e = "-53" and m = 6944550625405305]])
     (simp_all add: rateA_def rne_def Let_def power_int_minus power_divide)

lemma rateA_pow1: "correctlyRoundedPow rateA (Suc 0) = 8250594517342749 / 36028797018963968"
  unfolding correctlyRoundedPow_def
  by (rule trans [OF fl_eval [where e = "-55" and m = 8250594517342749]])
     (simp_all add: rateA_def rne_def Let_def power_int_minus power_divide)

lemma rateA_pow2: "correctlyRoundedPow rateA (Suc (Suc 0)) = 3778772288942979 / 72057594037927936"
  unfolding correctlyRoundedPow_def
  by (rule trans [OF fl_eval [where e = "-57" and m = 7557544577885958]])
     (simp_all add: rateA_def rne_def Let_def power_int_minus power_divide)

lemma rateA_pow3: "correctlyRoundedPow rateA (Suc (Suc (Suc 0))) = 3461355416671769 / 288230376151711744"
  unfolding correctlyRoundedPow_def
  by (rule trans [OF fl_eval [where e = "-59" and m = 6922710833343538]])
     (simp_all add: rateA_def rne_def Let_def power_int_minus power_divide)

lemma rateA_prob1: "dmul (8250594517342749 / 36028797018963968) (6944550625405305 / 9007199254740992) = 1590302093217815 / 9007199254740992"
  unfolding dmul_def
  by (rule trans [OF fl_eval [where e = "-55" and m = 6361208372871260]])
     (simp_all add: rateA_def rne_def Let_def power_int_minus power_divide)

lemma rateA_prob2: "dmul (3778772288942979 / 72057594037927936) (6944550625405305 / 9007199254740992) = 2913433434775037 / 72057594037927936"
  unfolding dmul_def
  by (rule trans [OF fl_eval [where e = "-57" and m = 5826866869550074]])
     (simp_all add: rateA_def rne_def Let_def power_int_minus power_divide)

lemma rateA_term1: "dmul (1590302093217815 / 9007199254740992) 100 = 621211755163209 / 35184372088832"
  unfolding dmul_def
  by (rule trans [OF fl_eval [where e = "-48" and m = 4969694041305672]])
     (simp_all add: rateA_def rne_def Let_def power_int_minus power_divide)

lemma rateA_sum1: "dadd (0) (621211755163209 / 35184372088832) = 621211755163209 / 35184372088832"
  unfolding dadd_def
  by (rule trans [OF fl_eval [where e = "-48" and m = 4969694041305672]])
     (simp_all add: rateA_def rne_def Let_def power_int_minus power_divide)

lemma rateA_term2: "dmul (2913433434775037 / 72057594037927936) 200 = 4552239741835995 / 562949953421312"
  unfolding dmul_def
  by (rule trans [OF fl_eval [where e = "-49" and m = 4552239741835995]])
     (simp_all add: rateA_def rne_def Let_def power_int_minus power_divide)

lemma rateA_sum2: "dadd (621211755163209 / 35184372088832) (4552239741835995 / 562949953421312) = 3622906956111835 / 140737488355328"
  unfolding dadd_def
  by (rule trans [OF fl_eval [where e = "-48" and m = 7245813912223670]])
     (simp_all add: rateA_def rne_def Let_def power_int_minus power_divide)

lemma rateA_term3: "dmul (3461355416671769 / 288230376151711744) 300 = 8112551757824459 / 2251799813685248"
  unfolding dmul_def
  by (rule trans [OF fl_eval [where e = "-51" and m = 8112551757824459]])
     (simp_all add: rateA_def rne_def Let_def power_int_minus power_divide)

lemma rateA_sum3: "dadd (3622906956111835 / 140737488355328) (8112551757824459 / 2251799813685248) = 8259882881951727 / 281474976710656"
  unfolding dadd_def
  by (rule trans [OF fl_eval [where e = "-48" and m = 8259882881951727]])
     (simp_all add: rateA_def rne_def Let_def power_int_minus power_divide)

lemma rateB_loss: "dsub 1 rateB = 868068828175663 / 1125899906842624"
  unfolding dsub_def
  by (rule trans [OF fl_eval [where e = "-53" and m = 6944550625405304]])
     (simp_all add: rateB_def rne_def Let_def power_int_minus power_divide)

lemma rateB_pow1: "correctlyRoundedPow rateB (Suc 0) = 4125297258671375 / 18014398509481984"
  unfolding correctlyRoundedPow_def
  by (rule trans [OF fl_eval [where e = "-55" and m = 8250594517342750]])
     (simp_all add: rateB_def rne_def Let_def power_int_minus power_divide)

lemma rateB_pow2: "correctlyRoundedPow rateB (Suc (Suc 0)) = 944693072235745 / 18014398509481984"
  unfolding correctlyRoundedPow_def
  by (rule trans [OF fl_eval [where e = "-57" and m = 7557544577885960]])
     (simp_all add: rateB_def rne_def Let_def power_int_minus power_divide)

lemma rateB_pow3: "correctlyRoundedPow rateB (Suc (Suc (Suc 0))) = 6922710833343541 / 576460752303423488"
  unfolding correctlyRoundedPow_def
  by (rule trans [OF fl_eval [where e = "-59" and m = 6922710833343541]])
     (simp_all add: rateB_def rne_def Let_def power_int_minus power_divide)

lemma rateB_prob1: "dmul (4125297258671375 / 18014398509481984) (868068828175663 / 1125899906842624) = 6361208372871259 / 36028797018963968"
  unfolding dmul_def
  by (rule trans [OF fl_eval [where e = "-55" and m = 6361208372871259]])
     (simp_all add: rateB_def rne_def Let_def power_int_minus power_divide)

lemma rateB_prob2: "dmul (944693072235745 / 18014398509481984) (868068828175663 / 1125899906842624) = 2913433434775037 / 72057594037927936"
  unfolding dmul_def
  by (rule trans [OF fl_eval [where e = "-57" and m = 5826866869550074]])
     (simp_all add: rateB_def rne_def Let_def power_int_minus power_divide)

lemma rateB_term1: "dmul (6361208372871259 / 36028797018963968) 100 = 4969694041305671 / 281474976710656"
  unfolding dmul_def
  by (rule trans [OF fl_eval [where e = "-48" and m = 4969694041305671]])
     (simp_all add: rateB_def rne_def Let_def power_int_minus power_divide)

lemma rateB_sum1: "dadd (0) (4969694041305671 / 281474976710656) = 4969694041305671 / 281474976710656"
  unfolding dadd_def
  by (rule trans [OF fl_eval [where e = "-48" and m = 4969694041305671]])
     (simp_all add: rateB_def rne_def Let_def power_int_minus power_divide)

lemma rateB_term2: "dmul (2913433434775037 / 72057594037927936) 200 = 4552239741835995 / 562949953421312"
  unfolding dmul_def
  by (rule trans [OF fl_eval [where e = "-49" and m = 4552239741835995]])
     (simp_all add: rateB_def rne_def Let_def power_int_minus power_divide)

lemma rateB_sum2: "dadd (4969694041305671 / 281474976710656) (4552239741835995 / 562949953421312) = 1811453478055917 / 70368744177664"
  unfolding dadd_def
  by (rule trans [OF fl_eval [where e = "-48" and m = 7245813912223668]])
     (simp_all add: rateB_def rne_def Let_def power_int_minus power_divide)

lemma rateB_term3: "dmul (6922710833343541 / 576460752303423488) 300 = 4056275878912231 / 1125899906842624"
  unfolding dmul_def
  by (rule trans [OF fl_eval [where e = "-51" and m = 8112551757824462]])
     (simp_all add: rateB_def rne_def Let_def power_int_minus power_divide)

lemma rateB_sum3: "dadd (1811453478055917 / 70368744177664) (4056275878912231 / 1125899906842624) = 4129941440975863 / 140737488355328"
  unfolding dadd_def
  by (rule trans [OF fl_eval [where e = "-48" and m = 8259882881951726]])
     (simp_all add: rateB_def rne_def Let_def power_int_minus power_divide)

lemma rateA_gold:
  "expectedGold (calculateQueueEV_double correctlyRoundedPow STANDARD_BO3 rateA) = 8259882881951727 / 281474976710656"
proof -
  have ne: "rateA \<noteq> 0" "rateA \<noteq> 1" by (simp_all add: rateA_def)
  show ?thesis
    by (simp add: calculateQueueEV_double_def calculateExpectedReward_double_def Let_def ne
          dmul_def [of _ 0] dadd_def [of 0 0] rateA_loss rateA_pow1 rateA_pow2 rateA_pow3 rateA_prob1 rateA_prob2 rateA_term1 rateA_sum1 rateA_term2 rateA_sum2 rateA_term3 rateA_sum3)
qed

lemma rateB_gold:
  "expectedGold (calculateQueueEV_double correctlyRoundedPow STANDARD_BO3 rateB) = 4129941440975863 / 140737488355328"
proof -
  have ne: "rateB \<noteq> 0" "rateB \<noteq> 1" by (simp_all add: rateB_def)
  show ?thesis
    by (simp add: calculateQueueEV_double_def calculateExpectedReward_double_def Let_def ne
          dmul_def [of _ 0] dadd_def [of 0 0] rateB_loss rateB_pow1 rateB_pow2 rateB_pow3 rateB_prob1 rateB_prob2 rateB_term1 rateB_sum1 rateB_term2 rateB_sum2 rateB_term3 rateB_sum3)
qed

subsection \<open>Monotone up to rounding\<close>

lemma near_mono:
  fixes a1 a2 x1 x2 e d :: real
  assumes "\<bar>a1 - x1\<bar> \<le> e" and "\<bar>a2 - x2\<bar> \<le> e" and "x1 \<le> x2" and "e + e \<le> d"
  shows "a1 \<le> a2 + d"
  using assms by linarith

text \<open>
  C5 as stated fails in the arithmetic of the program. At Standard best-of-three the
  expected gold computed at the double nearest 0.229 is 29.344998900000004, and at the
  next double above it (one unit in the last place more) it is 29.3449989, one unit in
  the last place less.
\<close>

theorem C5_adjacent_rates_counterexample:
  "0 \<le> rateA \<and> rateA < rateB \<and> rateB \<le> 1
   \<and> expectedGold (calculateQueueEV_double correctlyRoundedPow STANDARD_BO3 rateA)
       = 8259882881951727 / 281474976710656
   \<and> expectedGold (calculateQueueEV_double correctlyRoundedPow STANDARD_BO3 rateB)
       = 8259882881951726 / 281474976710656
   \<and> expectedGold (calculateQueueEV_double correctlyRoundedPow STANDARD_BO3 rateB)
       < expectedGold (calculateQueueEV_double correctlyRoundedPow STANDARD_BO3 rateA)"
  by (simp add: rateA_gold rateB_gold) (simp add: rateA_def rateB_def)

text \<open>
  C5, amended. For every supported queue and all win rates \<open>w1 \<le> w2\<close> in \<open>[0,1]\<close>,
  no component of \<open>calculateQueueEV\<close> as computed in double precision (expected gold,
  gems and packs, the gold equivalent, the net value and the value per minute) is
  smaller at \<open>w2\<close> than at \<open>w1\<close> by more than \<open>10^-8\<close>: the computed values are
  non-decreasing up to rounding. This holds for every \<open>Math.pow\<close> that is accurate to
  \<open>2^-50\<close> on bases in \<open>[0,1]\<close> and exponents up to 7.
\<close>

theorem C5_queue_ev_monotone_up_to_rounding:
  assumes "powAccurate Math_pow" and "0 \<le> w1" and "w1 \<le> w2" and "w2 \<le> 1"
  shows "expectedGold (calculateQueueEV_double Math_pow q w1)
           \<le> expectedGold (calculateQueueEV_double Math_pow q w2) + 1 / 10 ^ 8
       \<and> expectedGems (calculateQueueEV_double Math_pow q w1)
           \<le> expectedGems (calculateQueueEV_double Math_pow q w2) + 1 / 10 ^ 8
       \<and> expectedPacks (calculateQueueEV_double Math_pow q w1)
           \<le> expectedPacks (calculateQueueEV_double Math_pow q w2) + 1 / 10 ^ 8
       \<and> expectedValue (calculateQueueEV_double Math_pow q w1)
           \<le> expectedValue (calculateQueueEV_double Math_pow q w2) + 1 / 10 ^ 8
       \<and> netValue (calculateQueueEV_double Math_pow q w1)
           \<le> netValue (calculateQueueEV_double Math_pow q w2) + 1 / 10 ^ 8
       \<and> evPerMinute (calculateQueueEV_double Math_pow q w1)
           \<le> evPerMinute (calculateQueueEV_double Math_pow q w2) + 1 / 10 ^ 8"
proof -
  have r1: "0 \<le> w1" "w1 \<le> 1" and r2: "0 \<le> w2" "w2 \<le> 1"
    using assms(2,3,4) by simp_all
  have slack: "(1::real) / 2 ^ 28 + 1 / 2 ^ 28 \<le> 1 / 10 ^ 8" by simp
  note n1 = calculateQueueEV_double_near [OF r1 assms(1), of q]
  note n2 = calculateQueueEV_double_near [OF r2 assms(1), of q]
  note ex = calculateQueueEV_exact_mono [OF assms(2,3,4), of q]
  have gold: "expectedGold (calculateQueueEV_double Math_pow q w1)
           \<le> expectedGold (calculateQueueEV_double Math_pow q w2) + 1 / 10 ^ 8"
    using near_mono [OF n1(1) n2(1) _ slack] ex by blast
  have gems: "expectedGems (calculateQueueEV_double Math_pow q w1)
           \<le> expectedGems (calculateQueueEV_double Math_pow q w2) + 1 / 10 ^ 8"
    using near_mono [OF n1(2) n2(2) _ slack] ex by blast
  have packs: "expectedPacks (calculateQueueEV_double Math_pow q w1)
           \<le> expectedPacks (calculateQueueEV_double Math_pow q w2) + 1 / 10 ^ 8"
    using near_mono [OF n1(3) n2(3) _ slack] ex by blast
  have val: "expectedValue (calculateQueueEV_double Math_pow q w1)
           \<le> expectedValue (calculateQueueEV_double Math_pow q w2) + 1 / 10 ^ 8"
    using near_mono [OF n1(4) n2(4) _ slack] ex by blast
  have net: "netValue (calculateQueueEV_double Math_pow q w1)
           \<le> netValue (calculateQueueEV_double Math_pow q w2) + 1 / 10 ^ 8"
    using near_mono [OF n1(5) n2(5) _ slack] ex by blast
  have evm: "evPerMinute (calculateQueueEV_double Math_pow q w1)
           \<le> evPerMinute (calculateQueueEV_double Math_pow q w2) + 1 / 10 ^ 8"
    using near_mono [OF n1(6) n2(6) _ slack] ex by blast
  from gold gems packs val net evm show ?thesis by (intro conjI)
qed

theorem C5_queue_ev_monotone_up_to_rounding_witness:
  "powAccurate correctlyRoundedPow \<and> 0 \<le> rateA \<and> rateA \<le> rateB \<and> rateB \<le> 1
   \<and> expectedGold (calculateQueueEV_double correctlyRoundedPow STANDARD_BO3 rateA)
       \<le> expectedGold (calculateQueueEV_double correctlyRoundedPow STANDARD_BO3 rateB)
          + 1 / 10 ^ 8
   \<and> expectedGold (calculateQueueEV_double correctlyRoundedPow STANDARD_BO3 rateA)
       - expectedGold (calculateQueueEV_double correctlyRoundedPow STANDARD_BO3 rateB)
       = 1 / 2 ^ 48"
proof -
  have h: "0 \<le> rateA" "rateA \<le> rateB" "rateB \<le> 1"
    by (simp_all add: rateA_def rateB_def)
  have "expectedGold (calculateQueueEV_double correctlyRoundedPow STANDARD_BO3 rateA)
        \<le> expectedGold (calculateQueueEV_double correctlyRoundedPow STANDARD_BO3 rateB)
           + 1 / 10 ^ 8"
    using C5_queue_ev_monotone_up_to_rounding [OF correctlyRoundedPow_accurate h, of STANDARD_BO3]
    by simp
  moreover have "expectedGold (calculateQueueEV_double correctlyRoundedPow STANDARD_BO3 rateA)
       - expectedGold (calculateQueueEV_double correctlyRoundedPow STANDARD_BO3 rateB)
       = 1 / 2 ^ 48"
    by (simp add: rateA_gold rateB_gold)
  ultimately show ?thesis using h correctlyRoundedPow_accurate by simp
qed

end
